theory Spec2Isabelle
  imports Complex_Main "HOL-Library.AList" "HOL-Library.DAList"
begin

section \<open>JavaScript values\<close>

text \<open>
  A JavaScript \<open>number\<close> is an IEEE double. The classifier only compares numbers with
  constants, so a number is modelled by its mathematical value, with the three special
  values kept apart: every comparison with \<open>NaN\<close> is false.
\<close>

datatype number = NaN | NegInfinity | Finite real | PosInfinity

text \<open>The operator \<open>a > b\<close>.\<close>

fun js_gt :: "number \<Rightarrow> number \<Rightarrow> bool" where
  "js_gt NaN b = False"
| "js_gt a NaN = False"
| "js_gt (Finite a) (Finite b) = (b < a)"
| "js_gt PosInfinity PosInfinity = False"
| "js_gt PosInfinity b = True"
| "js_gt a PosInfinity = False"
| "js_gt NegInfinity b = False"
| "js_gt a NegInfinity = True"

text \<open>The operator \<open>a === b\<close> on numbers.\<close>

fun js_strict_eq :: "number \<Rightarrow> number \<Rightarrow> bool" where
  "js_strict_eq NaN b = False"
| "js_strict_eq a NaN = False"
| "js_strict_eq a b = (a = b)"

text \<open>
  A template literal that interpolates numbers is kept as its pieces: literal text,
  \<open>${x}\<close> and \<open>${x.toFixed(d)}\<close>.
\<close>

datatype piece = Lit string | Num number | Fixed nat number

text \<open>
  Values of type \<open>unknown\<close>, as they occur in event payloads and agent results.
  \<open>VDate t\<close> is a \<open>Date\<close> object, \<open>VIso t\<close> the string \<open>toISOString()\<close> gives for it,
  and \<open>VTimelineOf i\<close> a reference to the timeline array of incident \<open>i\<close>.
\<close>

datatype jsvalue =
    VUndefined
  | VBool bool
  | VNum number
  | VStr string
  | VTpl "piece list"
  | VDate nat
  | VIso nat
  | VTimelineOf string
  | VArr "jsvalue list"
  | VObj "(string \<times> jsvalue) list"

type_synonym jsobject = "(string \<times> jsvalue) list"

definition vnat :: "nat \<Rightarrow> jsvalue" where
  "vnat n = VNum (Finite (of_nat n))"

definition vopt :: "string option \<Rightarrow> jsvalue" where
  "vopt s = (case s of None \<Rightarrow> VUndefined | Some x \<Rightarrow> VStr x)"

definition vstrs :: "string list \<Rightarrow> jsvalue" where
  "vstrs xs = VArr (map VStr xs)"

text \<open>Truthiness, as \<open>if (v)\<close>, \<open>!v\<close> and \<open>v || d\<close> test it.\<close>

fun truthy :: "jsvalue \<Rightarrow> bool" where
  "truthy VUndefined = False"
| "truthy (VBool b) = b"
| "truthy (VNum NaN) = False"
| "truthy (VNum (Finite x)) = (x \<noteq> 0)"
| "truthy (VNum n) = True"
| "truthy (VStr s) = (s \<noteq> [])"
| "truthy (VTpl ps) = True"
| "truthy v = True"

text \<open>Reading a property of an object: \<open>undefined\<close> when it is absent.\<close>

definition get_prop :: "jsobject \<Rightarrow> string \<Rightarrow> jsvalue" where
  "get_prop obj k = (case map_of obj k of None \<Rightarrow> VUndefined | Some v \<Rightarrow> v)"

text \<open>The object spread \<open>{ ...a, ...b }\<close>: later properties replace earlier ones in place.\<close>

definition spread :: "jsobject \<Rightarrow> jsobject \<Rightarrow> jsobject" where
  "spread a b = foldl (\<lambda>obj (k, v). AList.update k v obj) a b"

text \<open>Decimal rendering of a non-negative integer, as a template literal prints it.\<close>

fun show_nat :: "nat \<Rightarrow> string" where
  "show_nat n =
     (if n < 10 then [char_of (48 + n)]
      else show_nat (n div 10) @ [char_of (48 + n mod 10)])"

declare show_nat.simps [simp del]

section \<open>Types of the core (types.ts)\<close>

datatype Severity = low | medium | high | critical

datatype FailureType =
    crashloop
  | latency_spike
  | memory_leak
  | service_down
  | config_error
  | dependency_failure
  | resource_exhaustion

datatype RecoveryAction =
    restart_pod
  | rollback_deployment
  | scale_up
  | scale_down
  | reload_config
  | clear_cache
  | restore_database
  | switch_traffic

datatype IncidentStatus =
    detected
  | analyzing
  | healing
  | escalated
  | recovering
  | resolved
  | failed

fun severity_str :: "Severity \<Rightarrow> string" where
  "severity_str low = ''low''"
| "severity_str medium = ''medium''"
| "severity_str high = ''high''"
| "severity_str critical = ''critical''"

fun failureType_str :: "FailureType \<Rightarrow> string" where
  "failureType_str crashloop = ''crashloop''"
| "failureType_str latency_spike = ''latency_spike''"
| "failureType_str memory_leak = ''memory_leak''"
| "failureType_str service_down = ''service_down''"
| "failureType_str config_error = ''config_error''"
| "failureType_str dependency_failure = ''dependency_failure''"
| "failureType_str resource_exhaustion = ''resource_exhaustion''"

fun action_str :: "RecoveryAction \<Rightarrow> string" where
  "action_str restart_pod = ''restart_pod''"
| "action_str rollback_deployment = ''rollback_deployment''"
| "action_str scale_up = ''scale_up''"
| "action_str scale_down = ''scale_down''"
| "action_str reload_config = ''reload_config''"
| "action_str clear_cache = ''clear_cache''"
| "action_str restore_database = ''restore_database''"
| "action_str switch_traffic = ''switch_traffic''"

fun status_str :: "IncidentStatus \<Rightarrow> string" where
  "status_str detected = ''detected''"
| "status_str analyzing = ''analyzing''"
| "status_str healing = ''healing''"
| "status_str escalated = ''escalated''"
| "status_str recovering = ''recovering''"
| "status_str resolved = ''resolved''"
| "status_str failed = ''failed''"

section \<open>Health snapshots and the anomaly classifier (health-monitor.ts)\<close>

record DemoAppHealth =
  healthy :: bool
  statusCode :: number
  responseTimeMs :: number
  error :: "string option"

record ProbeHealth =
  healthy :: bool
  error :: "string option"

record Metrics =
  errorRate :: number
  latencyP99Ms :: number
  memoryUsageMB :: number
  podRestarts :: number
  httpRequestsTotal :: number

record HealthSnapshot =
  demoApp :: DemoAppHealth
  database :: ProbeHealth
  prometheus :: ProbeHealth
  metrics :: Metrics
  timestamp :: nat

record AnomalyReport =
  detected :: bool
  failureType :: FailureType
  severity :: Severity
  affectedServices :: "string list"
  evidence :: jsobject
  description :: "piece list"

definition detectAnomalies :: "HealthSnapshot \<Rightarrow> AnomalyReport option" where
  "detectAnomalies snapshot =
     (if \<not> DemoAppHealth.healthy (demoApp snapshot)
         \<and> js_strict_eq (statusCode (demoApp snapshot)) (Finite 0) then
        Some \<lparr> detected = True,
               AnomalyReport.failureType = service_down,
               AnomalyReport.severity = critical,
               AnomalyReport.affectedServices = [''demo-app''],
               evidence =
                 [(''statusCode'', VNum (statusCode (demoApp snapshot))),
                  (''error'', vopt (DemoAppHealth.error (demoApp snapshot))),
                  (''responseTimeMs'', VNum (responseTimeMs (demoApp snapshot)))],
               description =
                 [Lit ''Demo application is completely unreachable. Service appears to be down.''] \<rparr>
      else if \<not> DemoAppHealth.healthy (demoApp snapshot)
         \<and> js_strict_eq (statusCode (demoApp snapshot)) (Finite 503) then
        Some \<lparr> detected = True,
               AnomalyReport.failureType = service_down,
               AnomalyReport.severity = high,
               AnomalyReport.affectedServices = [''demo-app''],
               evidence =
                 [(''statusCode'', VNum (statusCode (demoApp snapshot))),
                  (''error'', vopt (DemoAppHealth.error (demoApp snapshot))),
                  (''responseTimeMs'', VNum (responseTimeMs (demoApp snapshot)))],
               description =
                 [Lit ''Demo application health check returning 503 Unhealthy.''] \<rparr>
      else if js_gt (responseTimeMs (demoApp snapshot)) (Finite 2000) then
        Some \<lparr> detected = True,
               AnomalyReport.failureType = latency_spike,
               AnomalyReport.severity = high,
               AnomalyReport.affectedServices = [''demo-app''],
               evidence =
                 [(''responseTimeMs'', VNum (responseTimeMs (demoApp snapshot))),
                  (''latencyP99Ms'', VNum (latencyP99Ms (metrics snapshot)))],
               description =
                 [Lit ''High latency detected: '', Num (responseTimeMs (demoApp snapshot)),
                  Lit ''ms response time.''] \<rparr>
      else if js_gt (errorRate (metrics snapshot)) (Finite 5) then
        Some \<lparr> detected = True,
               AnomalyReport.failureType = dependency_failure,
               AnomalyReport.severity = high,
               AnomalyReport.affectedServices = [''demo-app''],
               evidence = [(''errorRate'', VNum (errorRate (metrics snapshot)))],
               description =
                 [Lit ''High error rate detected: '', Fixed 1 (errorRate (metrics snapshot)),
                  Lit ''% of requests failing.''] \<rparr>
      else if js_gt (memoryUsageMB (metrics snapshot)) (Finite 200) then
        Some \<lparr> detected = True,
               AnomalyReport.failureType = memory_leak,
               AnomalyReport.severity = medium,
               AnomalyReport.affectedServices = [''demo-app''],
               evidence = [(''memoryUsageMB'', VNum (memoryUsageMB (metrics snapshot)))],
               description =
                 [Lit ''Memory pressure detected: '', Fixed 0 (memoryUsageMB (metrics snapshot)),
                  Lit ''MB used.''] \<rparr>
      else None)"

text \<open>The verdict of a report: its classification and its severity.\<close>

definition verdict :: "AnomalyReport option \<Rightarrow> (FailureType \<times> Severity) option" where
  "verdict r = map_option (\<lambda>a. (AnomalyReport.failureType a, AnomalyReport.severity a)) r"

text \<open>
  The rule table as the specification words it, on the status code alone in its first
  two rules.
\<close>

definition classify_spec :: "HealthSnapshot \<Rightarrow> (FailureType \<times> Severity) option" where
  "classify_spec snapshot =
     (if js_strict_eq (statusCode (demoApp snapshot)) (Finite 0) then Some (service_down, critical)
      else if js_strict_eq (statusCode (demoApp snapshot)) (Finite 503) then Some (service_down, high)
      else if js_gt (responseTimeMs (demoApp snapshot)) (Finite 2000) then Some (latency_spike, high)
      else if js_gt (errorRate (metrics snapshot)) (Finite 5) then Some (dependency_failure, high)
      else if js_gt (memoryUsageMB (metrics snapshot)) (Finite 200) then Some (memory_leak, medium)
      else None)"

text \<open>A snapshot with every number zero, to build concrete inputs from.\<close>

definition snapshot0 :: "bool \<Rightarrow> real \<Rightarrow> HealthSnapshot" where
  "snapshot0 h code =
     \<lparr> demoApp = \<lparr> DemoAppHealth.healthy = h, statusCode = Finite code,
                    responseTimeMs = Finite 50, DemoAppHealth.error = None \<rparr>,
       database = \<lparr> ProbeHealth.healthy = h, ProbeHealth.error = None \<rparr>,
       prometheus = \<lparr> ProbeHealth.healthy = True, ProbeHealth.error = None \<rparr>,
       metrics = \<lparr> errorRate = Finite 0, latencyP99Ms = Finite 0, memoryUsageMB = Finite 0,
                    podRestarts = Finite 0, httpRequestsTotal = Finite 0 \<rparr>,
       HealthSnapshot.timestamp = 0 \<rparr>"

section \<open>The event bus (event-bus.ts)\<close>

datatype EventType =
    health_check
  | health_healthy
  | health_degraded
  | anomaly_detected
  | agent_start
  | agent_complete
  | agent_error
  | incident_created
  | incident_update
  | incident_resolved
  | recovery_action
  | recovery_success
  | recovery_failed
  | dr_started
  | dr_complete
  | traffic_switching
  | traffic_complete
  | report_generated
  | system_status
  | chaos_injected

record BusEvent =
  type :: EventType
  timestamp :: nat
  data :: jsobject

text \<open>
  \<open>xs.slice(start)\<close>: a negative start counts from the end, and both ends are clamped.
\<close>

definition js_slice :: "int \<Rightarrow> 'a list \<Rightarrow> 'a list" where
  "js_slice start xs =
     (let n = int (length xs);
          k = (if start < 0 then max (n + start) 0 else min start n)
      in drop (nat k) xs)"

text \<open>
  A subscriber is the handler passed to \<open>onEvent\<close>. What it does with an event lies outside
  the core; the model keeps whether the call returns (\<open>None\<close>) or throws an \<open>Error\<close> with a
  message, and the bus keeps the log of the calls made: \<open>(i, e)\<close> says that the handler
  subscribed at position \<open>i\<close> was called with \<open>e\<close>.
\<close>

type_synonym handler = "BusEvent \<Rightarrow> string option"

definition maxHistory :: nat where
  "maxHistory = 500"

record EventBus =
  eventHistory :: "BusEvent list"
  listeners :: "handler list"
  delivered :: "(nat \<times> BusEvent) list"

text \<open>
  \<open>EventEmitter.emit\<close> of Node.js, which \<open>super.emit('event', event)\<close> calls: the listeners
  run synchronously in the order of their registration, an exception thrown by a listener
  leaves \<open>emit\<close> at once, and otherwise the result says whether there was a listener.
\<close>

fun call_listeners ::
  "handler list \<Rightarrow> nat \<Rightarrow> BusEvent \<Rightarrow> (nat \<times> BusEvent) list
     \<Rightarrow> string option \<times> (nat \<times> BusEvent) list" where
  "call_listeners [] i e calls = (None, calls)"
| "call_listeners (h # hs) i e calls =
     (case h e of
        Some msg \<Rightarrow> (Some msg, calls @ [(i, e)])
      | None \<Rightarrow> call_listeners hs (Suc i) e (calls @ [(i, e)]))"

definition super_emit ::
  "handler list \<Rightarrow> BusEvent \<Rightarrow> (nat \<times> BusEvent) list
     \<Rightarrow> (string + bool) \<times> (nat \<times> BusEvent) list" where
  "super_emit hs e calls =
     (case call_listeners hs 0 e calls of
        (Some msg, calls') \<Rightarrow> (Inl msg, calls')
      | (None, calls') \<Rightarrow> (Inr (hs \<noteq> []), calls'))"

text \<open>The bus as the module creates it: \<open>new ResurrectorEventBus()\<close>.\<close>

definition new_bus :: EventBus where
  "new_bus = \<lparr> eventHistory = [], listeners = [], delivered = [] \<rparr>"

text \<open>
  \<open>emit(type, data)\<close> at time \<open>t\<close> (the value of \<open>new Date()\<close>). The result is \<open>Inl msg\<close>
  when the call throws and \<open>Inr b\<close> when it returns \<open>b\<close>.
\<close>

definition emit ::
  "EventType \<Rightarrow> jsobject \<Rightarrow> nat \<Rightarrow> EventBus \<Rightarrow> (string + bool) \<times> EventBus" where
  "emit ty d t b =
     (let event = \<lparr> type = ty, BusEvent.timestamp = t, data = d \<rparr>;
          pushed = eventHistory b @ [event];
          history = (if length pushed > maxHistory
                     then js_slice (- int maxHistory) pushed else pushed);
          (r, calls) = super_emit (listeners b) event (delivered b)
      in (r, b \<lparr> eventHistory := history, delivered := calls \<rparr>))"

definition onEvent :: "handler \<Rightarrow> EventBus \<Rightarrow> EventBus" where
  "onEvent h b = b \<lparr> listeners := listeners b @ [h] \<rparr>"

definition getHistory :: "int \<Rightarrow> EventBus \<Rightarrow> BusEvent list" where
  "getHistory limit b = js_slice (- limit) (eventHistory b)"

definition getHistoryByType :: "EventType \<Rightarrow> int \<Rightarrow> EventBus \<Rightarrow> BusEvent list" where
  "getHistoryByType ty limit b = js_slice (- limit) (filter (\<lambda>e. type e = ty) (eventHistory b))"

definition clearHistory :: "EventBus \<Rightarrow> EventBus" where
  "clearHistory b = b \<lparr> eventHistory := [] \<rparr>"

text \<open>A bus none of whose subscribers throws.\<close>

definition quiet :: "EventBus \<Rightarrow> bool" where
  "quiet b = (\<forall>h \<in> set (listeners b). \<forall>e. h e = None)"

text \<open>
  The two subscribers the program registers, in this order: the console logger of
  \<open>index.ts\<close> and the WebSocket broadcaster of \<open>createApiServer\<close>. Both format the event and
  write it out (\<open>console.log\<close>, \<open>client.send\<close> to the open clients) and return.
\<close>

definition console_logger :: handler where
  "console_logger e = None"

definition ws_broadcaster :: handler where
  "ws_broadcaster e = None"

definition program_bus :: EventBus where
  "program_bus = onEvent ws_broadcaster (onEvent console_logger new_bus)"

text \<open>
  The most recent \<open>min(limit, length)\<close> entries of a list kept oldest first, in the same
  order: what the specification asks of \<open>history(limit)\<close>.
\<close>

definition most_recent :: "nat \<Rightarrow> 'a list \<Rightarrow> 'a list" where
  "most_recent limit xs = drop (length xs - min limit (length xs)) xs"

section \<open>Incidents and the incident store (types.ts, incident-manager.ts)\<close>

record RecoveryAttempt =
  action :: RecoveryAction
  timestamp :: nat
  target :: string
  success :: bool
  error :: "string option"
  duration :: nat

record TimelineEvent =
  timestamp :: nat
  event :: string
  details :: "jsobject option"

text \<open>
  The \<open>timeline\<close> of a report is \<open>incident.timeline || []\<close>: the timeline array of the
  incident itself when the incident has one, a new empty array otherwise.
\<close>

datatype TimelineRef = TimelineOfIncident string | EmptyTimeline

record IncidentReport =
  id' :: string
  incidentId :: string
  timeline :: TimelineRef
  rootCauseAnalysis :: string
  actionsSummary :: string
  preventionRecommendations :: "string list"
  generatedAt :: nat

record Incident =
  id' :: string
  timestamp :: nat
  status :: IncidentStatus
  failureType :: FailureType
  severity :: Severity
  affectedServices :: "string list"
  rootCause :: "string option"
  attemptedActions :: "RecoveryAttempt list"
  resolvedAt :: "nat option"
  report :: "IncidentReport option"
  timeline :: "TimelineEvent list option"

section \<open>The state of the controller\<close>

text \<open>
  The module-level singletons (\<open>eventBus\<close>, \<open>incidentManager\<close>, \<open>orchestrator\<close>) and the
  clock make up the state. The incident store is a \<open>Map\<close> from ids to incidents, which
  keeps its keys distinct and in insertion order. \<open>now\<close> is what \<open>Date.now()\<close> returns, in
  milliseconds; it moves where the code awaits a timer or a request. \<open>pollTimer\<close> says
  whether the interval timer is set.

  The code runs on one thread and gives up control only at an \<open>await\<close>. A tick of the timer
  that finds no pipeline running is followed here to its end, through the pipeline it may
  start: the ticks that fire while a pipeline runs return at once (\<open>pipelineRunning\<close>) and
  change nothing.
\<close>

record World =
  now :: nat
  bus :: EventBus
  incidents :: "(string, Incident) alist"
  running :: bool
  pollTimer :: bool
  pipelineRunning :: bool
  lastHealthSnapshot :: "HealthSnapshot option"
  consecutiveHealthy :: nat
  consecutiveUnhealthy :: nat

text \<open>The state when the modules have been loaded, at time \<open>t\<close>.\<close>

definition initial_world :: "nat \<Rightarrow> World" where
  "initial_world t =
     \<lparr> now = t, bus = new_bus, incidents = DAList.empty, running = False, pollTimer = False,
       pipelineRunning = False, lastHealthSnapshot = None,
       consecutiveHealthy = 0, consecutiveUnhealthy = 0 \<rparr>"

text \<open>The state when \<open>index.ts\<close> has registered its subscribers and calls \<open>orchestrator.start()\<close>.\<close>

definition program_world :: "nat \<Rightarrow> World" where
  "program_world t = (initial_world t) \<lparr> bus := program_bus \<rparr>"

text \<open>\<open>await sleep(ms)\<close>: time passes.\<close>

definition sleep :: "nat \<Rightarrow> World \<Rightarrow> World" where
  "sleep ms w = w \<lparr> now := now w + ms \<rparr>"

text \<open>
  \<open>eventBus.emit(type, data)\<close> as the store, the agents and the orchestrator call it, none
  of which reads its result. The state that follows is the one the call leaves when it
  returns, which it does on every bus that is \<open>quiet\<close>; after a subscriber has thrown,
  the caller does not continue as this function says.
\<close>

definition publish :: "EventType \<Rightarrow> jsobject \<Rightarrow> World \<Rightarrow> World" where
  "publish ty d w = w \<lparr> bus := snd (emit ty d (now w) (bus w)) \<rparr>"

definition generateId :: "nat \<Rightarrow> string \<Rightarrow> string" where
  "generateId t suffix = ''INC-'' @ show_nat t @ ''-'' @ suffix"

definition getIncident :: "string \<Rightarrow> World \<Rightarrow> Incident option" where
  "getIncident incId w = DAList.lookup (incidents w) incId"

definition addTimeline :: "string \<Rightarrow> string \<Rightarrow> jsobject option \<Rightarrow> World \<Rightarrow> World" where
  "addTimeline incId ev det w =
     (case DAList.lookup (incidents w) incId of
        None \<Rightarrow> w
      | Some incident \<Rightarrow>
          let entries = (case Incident.timeline incident of None \<Rightarrow> [] | Some es \<Rightarrow> es);
              timelineEntry = \<lparr> TimelineEvent.timestamp = now w, event = ev, details = det \<rparr>
          in w \<lparr> incidents :=
                   DAList.update incId
                     (incident \<lparr> Incident.timeline := Some (entries @ [timelineEntry]) \<rparr>)
                     (incidents w) \<rparr>)"

text \<open>
  \<open>createIncident\<close>; \<open>suffix\<close> is the random part of the id,
  \<open>Math.random().toString(36).substr(2, 6).toUpperCase()\<close>. The incident returned is the
  object the store holds, so it carries the timeline entry added last.
\<close>

definition createIncident ::
  "FailureType \<Rightarrow> Severity \<Rightarrow> string list \<Rightarrow> string \<Rightarrow> World \<Rightarrow> Incident \<times> World" where
  "createIncident ft sev services suffix w =
     (let incident =
            \<lparr> Incident.id' = generateId (now w) suffix,
              Incident.timestamp = now w,
              Incident.status = IncidentStatus.detected,
              Incident.failureType = ft,
              Incident.severity = sev,
              Incident.affectedServices = services,
              rootCause = None,
              attemptedActions = [],
              resolvedAt = None,
              report = None,
              Incident.timeline = None \<rparr>;
          w1 = w \<lparr> incidents := DAList.update (Incident.id' incident) incident (incidents w) \<rparr>;
          w2 = publish incident_created
                 [(''incidentId'', VStr (Incident.id' incident)),
                  (''failureType'', VStr (failureType_str ft)),
                  (''severity'', VStr (severity_str sev)),
                  (''affectedServices'', vstrs services)] w1;
          w3 = addTimeline (Incident.id' incident) ''Incident detected''
                 (Some [(''failureType'', VStr (failureType_str ft)),
                        (''severity'', VStr (severity_str sev)),
                        (''affectedServices'', vstrs services)]) w2
      in (case getIncident (Incident.id' incident) w3 of
            Some stored \<Rightarrow> (stored, w3)
          | None \<Rightarrow> (incident, w3)))"

definition updateStatus :: "string \<Rightarrow> IncidentStatus \<Rightarrow> World \<Rightarrow> World" where
  "updateStatus incId st w =
     (case DAList.lookup (incidents w) incId of
        None \<Rightarrow> w
      | Some incident \<Rightarrow>
          let incident1 = incident \<lparr> Incident.status := st \<rparr>;
              incident2 = (if st = resolved then incident1 \<lparr> resolvedAt := Some (now w) \<rparr>
                           else incident1);
              w1 = w \<lparr> incidents := DAList.update incId incident2 (incidents w) \<rparr>
          in publish incident_update
               [(''incidentId'', VStr incId),
                (''status'', VStr (status_str st)),
                (''timestamp'', VIso (now w))] w1)"

definition addRecoveryAttempt :: "string \<Rightarrow> RecoveryAttempt \<Rightarrow> World \<Rightarrow> World" where
  "addRecoveryAttempt incId attempt w =
     (case DAList.lookup (incidents w) incId of
        None \<Rightarrow> w
      | Some incident \<Rightarrow>
          let w1 = w \<lparr> incidents :=
                        DAList.update incId
                          (incident \<lparr> attemptedActions := attemptedActions incident @ [attempt] \<rparr>)
                          (incidents w) \<rparr>;
              w2 = publish recovery_action
                     [(''incidentId'', VStr incId),
                      (''action'', VStr (action_str (action attempt))),
                      (''target'', VStr (target attempt)),
                      (''success'', VBool (RecoveryAttempt.success attempt)),
                      (''error'', vopt (RecoveryAttempt.error attempt)),
                      (''duration'', vnat (RecoveryAttempt.duration attempt))] w1
          in addTimeline incId (''Recovery action: '' @ action_str (action attempt))
               (Some [(''target'', VStr (target attempt)),
                      (''success'', VBool (RecoveryAttempt.success attempt)),
                      (''error'', vopt (RecoveryAttempt.error attempt))]) w2)"

definition setRootCause :: "string \<Rightarrow> string \<Rightarrow> World \<Rightarrow> World" where
  "setRootCause incId cause w =
     (case DAList.lookup (incidents w) incId of
        None \<Rightarrow> w
      | Some incident \<Rightarrow>
          w \<lparr> incidents :=
                DAList.update incId (incident \<lparr> rootCause := Some cause \<rparr>) (incidents w) \<rparr>)"

text \<open>The report as the payload of \<open>report:generated\<close> carries it.\<close>

definition report_value :: "IncidentReport \<Rightarrow> jsvalue" where
  "report_value r =
     VObj [(''id'', VStr (IncidentReport.id' r)),
           (''incidentId'', VStr (incidentId r)),
           (''timeline'', (case IncidentReport.timeline r of
                             TimelineOfIncident i \<Rightarrow> VTimelineOf i
                           | EmptyTimeline \<Rightarrow> VArr [])),
           (''rootCauseAnalysis'', VStr (rootCauseAnalysis r)),
           (''actionsSummary'', VStr (actionsSummary r)),
           (''preventionRecommendations'', vstrs (preventionRecommendations r)),
           (''generatedAt'', VDate (generatedAt r))]"

definition setReport :: "string \<Rightarrow> IncidentReport \<Rightarrow> World \<Rightarrow> World" where
  "setReport incId rep w =
     (case DAList.lookup (incidents w) incId of
        None \<Rightarrow> w
      | Some incident \<Rightarrow>
          let w1 = w \<lparr> incidents :=
                        DAList.update incId (incident \<lparr> report := Some rep \<rparr>) (incidents w) \<rparr>
          in publish report_generated
               [(''incidentId'', VStr incId), (''report'', report_value rep)] w1)"

text \<open>An incident is active while its status is neither \<open>resolved\<close> nor \<open>failed\<close>.\<close>

definition active :: "Incident \<Rightarrow> bool" where
  "active i = (status i \<noteq> resolved \<and> status i \<noteq> failed)"

text \<open>
  \<open>getActiveIncident\<close>: the active incidents, most recent first (the sort of an array is
  stable), and the first of them, \<open>undefined\<close> when there is none.
\<close>

definition getActiveIncident :: "World \<Rightarrow> Incident option" where
  "getActiveIncident w =
     (case sort_key (\<lambda>i. - int (Incident.timestamp i))
             (filter active (map snd (DAList.impl_of (incidents w)))) of
        [] \<Rightarrow> None
      | i # rest \<Rightarrow> Some i)"

definition getAllIncidents :: "World \<Rightarrow> Incident list" where
  "getAllIncidents w =
     sort_key (\<lambda>i. - int (Incident.timestamp i)) (map snd (DAList.impl_of (incidents w)))"

definition getIncidentCount :: "World \<Rightarrow> nat" where
  "getIncidentCount w = length (DAList.impl_of (incidents w))"

text \<open>The incidents of the store that are active, and the invariant of the store.\<close>

definition active_incidents :: "World \<Rightarrow> Incident list" where
  "active_incidents w = filter active (map snd (DAList.impl_of (incidents w)))"

definition at_most_one_active :: "World \<Rightarrow> bool" where
  "at_most_one_active w = (length (active_incidents w) \<le> 1)"

section \<open>The recovery pipeline (agents.ts)\<close>

record AgentResult =
  agent :: string
  success :: bool
  data :: jsobject
  duration :: nat

text \<open>
  What a \<open>fetch\<close> gives: after \<open>elapsed\<close> milliseconds either an \<open>Error\<close> with a message
  (\<open>Inl\<close>) or a response with its status and what \<open>json()\<close> gives for its body, a thrown
  \<open>Error\<close> (\<open>Inl\<close>) or the parsed object.
\<close>

record Response =
  status :: nat
  json :: "string + jsobject"

record Fetch =
  elapsed :: nat
  result :: "string + Response"

definition ok :: "Response \<Rightarrow> bool" where
  "ok r = (200 \<le> Response.status r \<and> Response.status r \<le> 299)"

definition await_fetch :: "Fetch \<Rightarrow> World \<Rightarrow> (string + Response) \<times> World" where
  "await_fetch f w = (result f, w \<lparr> now := now w + elapsed f \<rparr>)"

text \<open>
  The answers of the outside world to one run of the pipeline: the random part of the
  incident id and the outcome of each request the agents send to the demo application.
\<close>

record PipelineEnv =
  randomSuffix :: string
  healReset :: Fetch
  healHealth :: Fetch
  drReset :: Fetch
  drHealth :: "nat \<Rightarrow> Fetch"
  trafficHealth :: Fetch

text \<open>
  \<open>executeAgent\<close>. The stage body \<open>fn\<close> returns \<open>Inr data\<close>, or \<open>Inl msg\<close> when it throws
  an \<open>Error\<close> with that message.
\<close>

definition executeAgent ::
  "string \<Rightarrow> string \<Rightarrow> (World \<Rightarrow> (string + jsobject) \<times> World) \<Rightarrow> World
     \<Rightarrow> AgentResult \<times> World" where
  "executeAgent agentName incId fn w =
     (let start = now w;
          w1 = publish agent_start [(''agent'', VStr agentName), (''incidentId'', VStr incId)] w;
          w2 = addTimeline incId (agentName @ '' started'') None w1
      in case fn w2 of
           (Inr d, w3) \<Rightarrow>
             let dur = now w3 - start;
                 w4 = publish agent_complete
                        [(''agent'', VStr agentName), (''incidentId'', VStr incId),
                         (''success'', VBool True), (''duration'', vnat dur),
                         (''data'', VObj d)] w3;
                 w5 = addTimeline incId (agentName @ '' completed'')
                        (Some (spread [(''duration'', vnat dur)] d)) w4
             in (\<lparr> agent = agentName, AgentResult.success = True, AgentResult.data = d,
                    AgentResult.duration = dur \<rparr>, w5)
         | (Inl errorMsg, w3) \<Rightarrow>
             let dur = now w3 - start;
                 w4 = publish agent_error
                        [(''agent'', VStr agentName), (''incidentId'', VStr incId),
                         (''error'', VStr errorMsg), (''duration'', vnat dur)] w3;
                 w5 = addTimeline incId (agentName @ '' failed: '' @ errorMsg) None w4
             in (\<lparr> agent = agentName, AgentResult.success = False,
                    AgentResult.data = [(''error'', VStr errorMsg)],
                    AgentResult.duration = dur \<rparr>, w5))"

subsection \<open>Agent 1: Observability Agent\<close>

definition runObservabilityAgent ::
  "string \<Rightarrow> AnomalyReport \<Rightarrow> HealthSnapshot \<Rightarrow> World \<Rightarrow> AgentResult \<times> World" where
  "runObservabilityAgent incId anomaly snapshot =
     executeAgent ''Observability Agent'' incId
       (\<lambda>w. let w1 = sleep 800 w
            in (Inr [(''anomalyType'', VStr (failureType_str (AnomalyReport.failureType anomaly))),
                     (''severity'', VStr (severity_str (AnomalyReport.severity anomaly))),
                     (''description'', VTpl (description anomaly)),
                     (''affectedServices'', vstrs (AnomalyReport.affectedServices anomaly)),
                     (''evidence'', VObj (evidence anomaly)),
                     (''healthSnapshot'',
                        VObj [(''appStatus'', VNum (statusCode (demoApp snapshot))),
                              (''responseTimeMs'', VNum (responseTimeMs (demoApp snapshot))),
                              (''errorRate'', VNum (errorRate (metrics snapshot))),
                              (''memoryMB'', VNum (memoryUsageMB (metrics snapshot)))])],
                w1))"

subsection \<open>Agent 2: Incident Analyzer\<close>

text \<open>The em dash of the root cause texts, in UTF-8.\<close>

definition em_dash :: string where
  "em_dash = [CHR 0xE2, CHR 0x80, CHR 0x94]"

text \<open>
  The \<open>switch\<close> on the failure type: root cause, root cause category, fix strategy and
  confidence.
\<close>

definition analysis :: "FailureType \<Rightarrow> string \<times> string \<times> string \<times> string" where
  "analysis ft =
     (case ft of
        service_down \<Rightarrow>
          (''Application health check failing '' @ em_dash
             @ '' service marked itself unhealthy or crashed'',
           ''Application Failure'', ''restart_service'', ''high'')
      | latency_spike \<Rightarrow>
          (''Artificial latency injection or resource contention causing slow responses'',
           ''Performance Degradation'', ''reset_latency'', ''high'')
      | memory_leak \<Rightarrow>
          (''Memory leak detected '' @ em_dash @ '' application consuming excessive memory'',
           ''Resource Exhaustion'', ''restart_and_clear'', ''medium'')
      | dependency_failure \<Rightarrow>
          (''High error rate '' @ em_dash @ '' database connection or dependency failure'',
           ''Dependency Failure'', ''check_dependencies'', ''medium'')
      | _ \<Rightarrow>
          (''Unknown failure type: '' @ failureType_str ft,
           ''Unknown'', ''restart_service'', ''low''))"

definition runAnalyzerAgent ::
  "string \<Rightarrow> AnomalyReport \<Rightarrow> HealthSnapshot \<Rightarrow> World \<Rightarrow> AgentResult \<times> World" where
  "runAnalyzerAgent incId anomaly snapshot =
     executeAgent ''Incident Analyzer'' incId
       (\<lambda>w. let w1 = updateStatus incId analyzing w;
                w2 = sleep 1200 w1;
                (cause, rootCauseCategory, fixStrategy, confidence) =
                  analysis (AnomalyReport.failureType anomaly);
                w3 = setRootCause incId cause w2
            in (Inr [(''rootCause'', VStr cause),
                     (''rootCauseCategory'', VStr rootCauseCategory),
                     (''fixStrategy'', VStr fixStrategy),
                     (''confidence'', VStr confidence),
                     (''correlatedMetrics'',
                        VObj [(''errorRate'', VNum (errorRate (metrics snapshot))),
                              (''latencyP99Ms'', VNum (latencyP99Ms (metrics snapshot))),
                              (''memoryUsageMB'', VNum (memoryUsageMB (metrics snapshot)))])],
                w3))"

subsection \<open>Agent 3: Self-Healing Agent\<close>

text \<open>
  The inner \<open>try\<close> of the healing stage: whether the reset succeeded, the action taken
  and the error recorded. An exception of \<open>fetch\<close> or \<open>json()\<close> is caught there and becomes
  the error.
\<close>

definition healing_attempt ::
  "string \<Rightarrow> string \<Rightarrow> PipelineEnv \<Rightarrow> World \<Rightarrow> (bool \<times> string \<times> string option) \<times> World" where
  "healing_attempt incId fixStrategy env w =
     (if fixStrategy = ''restart_service'' \<or> fixStrategy = ''reset_latency''
         \<or> fixStrategy = ''restart_and_clear'' \<or> fixStrategy = ''check_dependencies'' then
        let actionTaken = ''Reset chaos state via /chaos/reset'';
            w1 = publish recovery_action
                   [(''incidentId'', VStr incId),
                    (''action'', VStr ''Sending reset signal to demo application''),
                    (''phase'', VStr ''executing'')] w;
            w2 = sleep 500 w1;
            (r, w3) = await_fetch (healReset env) w2
        in case r of
             Inl msg \<Rightarrow> ((False, actionTaken, Some msg), w3)
           | Inr response \<Rightarrow>
               if ok response then
                 let w4 = publish recovery_action
                            [(''incidentId'', VStr incId),
                             (''action'', VStr ''Waiting for service stabilization''),
                             (''phase'', VStr ''stabilizing'')] w3;
                     w5 = sleep 2000 w4;
                     (h, w6) = await_fetch (healHealth env) w5
                 in case h of
                      Inl msg \<Rightarrow> ((False, actionTaken, Some msg), w6)
                    | Inr healthCheck \<Rightarrow>
                        (case json healthCheck of
                           Inl msg \<Rightarrow> ((False, actionTaken, Some msg), w6)
                         | Inr healthBody \<Rightarrow>
                             if ok healthCheck \<and> get_prop healthBody ''status'' = VStr ''healthy''
                             then ((True, actionTaken, None), w6)
                             else ((False, actionTaken,
                                    Some (''Health check failed after reset: ''
                                          @ show_nat (Response.status healthCheck))), w6))
               else ((False, actionTaken,
                      Some (''Reset failed: HTTP '' @ show_nat (Response.status response))), w3)
      else ((False, ''Unknown strategy: '' @ fixStrategy,
             Some ''No handler for this fix strategy''), w))"

definition runHealingAgent ::
  "string \<Rightarrow> string \<Rightarrow> PipelineEnv \<Rightarrow> World \<Rightarrow> AgentResult \<times> World" where
  "runHealingAgent incId fixStrategy env =
     executeAgent ''Self-Healing Agent'' incId
       (\<lambda>w. let w1 = updateStatus incId healing w;
                start = now w1;
                ((healed, actionTaken, actionError), w2) = healing_attempt incId fixStrategy env w1;
                attempt = \<lparr> action = restart_pod,
                            RecoveryAttempt.timestamp = now w2,
                            target = ''demo-app'',
                            RecoveryAttempt.success = healed,
                            RecoveryAttempt.error = actionError,
                            RecoveryAttempt.duration = now w2 - start \<rparr>;
                w3 = addRecoveryAttempt incId attempt w2;
                w4 = (if healed then
                        publish recovery_success
                          [(''incidentId'', VStr incId), (''action'', VStr actionTaken)] w3
                      else
                        publish recovery_failed
                          [(''incidentId'', VStr incId), (''action'', VStr actionTaken),
                           (''error'', vopt actionError)] w3)
            in (Inr [(''success'', VBool healed),
                     (''actionTaken'', VStr actionTaken),
                     (''error'', vopt actionError)],
                w4))"

subsection \<open>Agent 4: Recovery Decision Agent\<close>

definition runRecoveryDecisionAgent :: "string \<Rightarrow> bool \<Rightarrow> World \<Rightarrow> AgentResult \<times> World" where
  "runRecoveryDecisionAgent incId healingSuccess =
     executeAgent ''Recovery Decision Agent'' incId
       (\<lambda>w. let w1 = sleep 600 w
            in if healingSuccess then
                 (Inr [(''decision'', VStr ''resolved''),
                       (''reason'', VStr ''Self-healing succeeded, service is healthy''),
                       (''nextAction'', VStr ''generate_report'')], w1)
               else
                 let attempts = (case getIncident incId w1 of
                                   None \<Rightarrow> 0
                                 | Some incident \<Rightarrow> length (attemptedActions incident))
                 in if attempts \<ge> 3 then
                      (Inr [(''decision'', VStr ''escalate_dr''),
                            (''reason'', VStr (''Self-healing failed after '' @ show_nat attempts
                                @ '' attempts. Escalating to disaster recovery.'')),
                            (''nextAction'', VStr ''disaster_recovery'')], w1)
                    else
                      (Inr [(''decision'', VStr ''escalate_dr''),
                            (''reason'', VStr ''Self-healing failed. Escalating to disaster recovery.''),
                            (''nextAction'', VStr ''disaster_recovery'')], w1))"

subsection \<open>Agent 5: Disaster Recovery Agent\<close>

text \<open>
  The loop \<open>for (let i = 0; i < 5; i++)\<close> of health checks: \<open>n\<close> rounds are left and the
  next one is round \<open>i\<close>. A response that is \<open>ok\<close> ends the loop; after any other response
  and after an exception the loop sleeps one second and goes on.
\<close>

fun dr_health_checks :: "nat \<Rightarrow> nat \<Rightarrow> (nat \<Rightarrow> Fetch) \<Rightarrow> World \<Rightarrow> bool \<times> World" where
  "dr_health_checks 0 i f w = (False, w)"
| "dr_health_checks (Suc n) i f w =
     (let (r, w1) = await_fetch (f i) w
      in case r of
           Inr health \<Rightarrow>
             if ok health then (True, w1)
             else dr_health_checks n (Suc i) f (sleep 1000 w1)
         | Inl msg \<Rightarrow> dr_health_checks n (Suc i) f (sleep 1000 w1))"

definition runDisasterRecoveryAgent ::
  "string \<Rightarrow> PipelineEnv \<Rightarrow> World \<Rightarrow> AgentResult \<times> World" where
  "runDisasterRecoveryAgent incId env =
     executeAgent ''Disaster Recovery Agent'' incId
       (\<lambda>w. let w1 = updateStatus incId recovering w;
                w2 = publish dr_started [(''incidentId'', VStr incId)] w1;
                w3 = publish recovery_action
                       [(''incidentId'', VStr incId),
                        (''action'', VStr ''Identifying latest backup snapshot''),
                        (''phase'', VStr ''backup_check'')] w2;
                w4 = sleep 1000 w3;
                w5 = publish recovery_action
                       [(''incidentId'', VStr incId),
                        (''action'', VStr ''Restarting demo-app container''),
                        (''phase'', VStr ''container_restart'')] w4;
                (r, w6) = await_fetch (drReset env) w5;
                containerRestarted = (case r of Inr resetResponse \<Rightarrow> ok resetResponse
                                      | Inl msg \<Rightarrow> False);
                w7 = sleep 2000 w6;
                w8 = publish recovery_action
                       [(''incidentId'', VStr incId),
                        (''action'', VStr ''Validating system health post-recovery''),
                        (''phase'', VStr ''health_validation'')] w7;
                (recovered, w9) = dr_health_checks 5 0 (drHealth env) w8;
                attempt = \<lparr> action = restore_database,
                            RecoveryAttempt.timestamp = now w9,
                            target = ''demo-app + demo-db'',
                            RecoveryAttempt.success = recovered,
                            RecoveryAttempt.error = None,
                            RecoveryAttempt.duration = 4000 \<rparr>;
                w10 = addRecoveryAttempt incId attempt w9;
                w11 = publish dr_complete
                        [(''incidentId'', VStr incId),
                         (''success'', VBool recovered),
                         (''containerRestarted'', VBool containerRestarted)] w10
            in (Inr [(''recoveryStatus'', VStr (if recovered then ''success'' else ''partial'')),
                     (''restoredFrom'', VStr ''latest-snapshot''),
                     (''servicesRecovered'',
                        vstrs (if recovered then [''demo-app'', ''demo-db''] else [])),
                     (''dataLossWindow'', VStr ''none''),
                     (''readyForTraffic'', VBool recovered)],
                w11))"

subsection \<open>Agent 6: Traffic Switch Agent\<close>

definition runTrafficSwitchAgent ::
  "string \<Rightarrow> bool \<Rightarrow> PipelineEnv \<Rightarrow> World \<Rightarrow> AgentResult \<times> World" where
  "runTrafficSwitchAgent incId readyForTraffic env =
     executeAgent ''Traffic Switch Agent'' incId
       (\<lambda>w. let w1 = publish traffic_switching [(''incidentId'', VStr incId)] w
            in if \<not> readyForTraffic then
                 (Inr [(''trafficStatus'', VStr ''failed''),
                       (''reason'', VStr ''System not ready for traffic'')], w1)
               else
                 let w2 = publish recovery_action
                            [(''incidentId'', VStr incId),
                             (''action'', VStr ''Verifying system stability before traffic switch''),
                             (''phase'', VStr ''stability_check'')] w1;
                     w3 = sleep 1500 w2;
                     (h, w4) = await_fetch (trafficHealth env) w3;
                     stable = (case h of
                                 Inl msg \<Rightarrow> False
                               | Inr health \<Rightarrow>
                                   (case json health of
                                      Inl msg \<Rightarrow> False
                                    | Inr body \<Rightarrow>
                                        ok health \<and> get_prop body ''status'' = VStr ''healthy''));
                     w5 = (if stable then publish traffic_complete [(''incidentId'', VStr incId)] w4
                           else w4)
                 in (Inr [(''trafficStatus'', VStr (if stable then ''complete'' else ''rolled_back'')),
                          (''currentTrafficPercent'', vnat (if stable then 100 else 0)),
                          (''stabilityCheck'', VStr (if stable then ''passed'' else ''failed''))],
                     w5))"

subsection \<open>Agent 7: Incident Reporter\<close>

definition show_int :: "int \<Rightarrow> string" where
  "show_int i = (if i < 0 then ''-'' @ show_nat (nat (- i)) else show_nat (nat i))"

definition vint :: "int \<Rightarrow> jsvalue" where
  "vint i = VNum (Finite (of_int i))"

definition formatDuration :: "int \<Rightarrow> string" where
  "formatDuration ms =
     (let seconds = ms div 1000
      in if seconds < 60 then show_int seconds @ ''s''
         else let minutes = seconds div 60;
                  remainingSeconds = seconds mod 60
              in show_int minutes @ ''m '' @ show_int remainingSeconds @ ''s'')"

definition generateRecommendations :: "FailureType \<Rightarrow> string list" where
  "generateRecommendations ft =
     (let base = [''Implement automated health check monitoring with alerting'',
                  ''Add circuit breakers for external dependencies'',
                  ''Set up runbook automation for common failure scenarios'']
      in case ft of
           service_down \<Rightarrow>
             [''Add readiness and liveness probes with appropriate thresholds'',
              ''Implement graceful shutdown handling'',
              ''Configure horizontal pod autoscaling for high availability''] @ base
         | latency_spike \<Rightarrow>
             [''Set up latency-based alerting with P95/P99 thresholds'',
              ''Implement request timeout and retry policies'',
              ''Add caching layer for frequently accessed data''] @ base
         | memory_leak \<Rightarrow>
             [''Profile application memory usage in staging'',
              ''Set memory limits and configure OOM kill policies'',
              ''Implement periodic garbage collection monitoring''] @ base
         | dependency_failure \<Rightarrow>
             [''Implement circuit breaker pattern for database connections'',
              ''Add connection pool monitoring and alerting'',
              ''Configure database failover and read replicas''] @ base
         | _ \<Rightarrow> base)"

text \<open>\<open>lines.join('\n')\<close>.\<close>

fun join_lines :: "string list \<Rightarrow> string" where
  "join_lines [] = []"
| "join_lines [l] = l"
| "join_lines (l # ls) = l @ [CHR 0x0A] @ join_lines ls"

definition attempt_summary :: "RecoveryAttempt \<Rightarrow> string" where
  "attempt_summary a =
     action_str (action a) @ '' on '' @ target a @ '': ''
     @ (if RecoveryAttempt.success a then ''SUCCESS'' else ''FAILED'')
     @ (case RecoveryAttempt.error a of
          None \<Rightarrow> ''''
        | Some e \<Rightarrow> if e = [] then '''' else '' ('' @ e @ '')'')"

text \<open>The body of the reporter stage, the function \<open>runReporterAgent\<close> passes to \<open>executeAgent\<close>.\<close>

definition reporter_body :: "string \<Rightarrow> World \<Rightarrow> (string + jsobject) \<times> World" where
  "reporter_body incId w =
     (case getIncident incId w of
        None \<Rightarrow> (Inl ''Incident not found'', w)
      | Some incident \<Rightarrow>
          let w1 = sleep 1000 w;
              entries = (case Incident.timeline incident of
                           Some es \<Rightarrow> TimelineOfIncident incId
                         | None \<Rightarrow> EmptyTimeline);
              dur = (case resolvedAt incident of
                       Some r \<Rightarrow> int r - int (Incident.timestamp incident)
                     | None \<Rightarrow> int (now w1) - int (Incident.timestamp incident));
              rep = \<lparr> IncidentReport.id' = ''RPT-'' @ show_nat (now w1),
                      incidentId = incId,
                      IncidentReport.timeline = entries,
                      rootCauseAnalysis =
                        (case rootCause incident of
                           None \<Rightarrow> ''Root cause analysis pending''
                         | Some c \<Rightarrow> if c = [] then ''Root cause analysis pending'' else c),
                      actionsSummary =
                        join_lines (map attempt_summary (attemptedActions incident)),
                      preventionRecommendations =
                        generateRecommendations (Incident.failureType incident),
                      generatedAt = now w1 \<rparr>;
              w2 = setReport incId rep w1;
              w3 = updateStatus incId resolved w2;
              w4 = publish incident_resolved
                     [(''incidentId'', VStr incId),
                      (''duration'', vint dur),
                      (''report'',
                         VObj [(''id'', VStr (IncidentReport.id' rep)),
                               (''rootCause'', VStr (rootCauseAnalysis rep)),
                               (''actionsCount'', vnat (length (attemptedActions incident))),
                               (''durationMs'', vint dur)])] w3
          in (Inr [(''reportId'', VStr (IncidentReport.id' rep)),
                   (''durationMs'', vint dur),
                   (''durationHuman'', VStr (formatDuration dur)),
                   (''actionsCount'', vnat (length (attemptedActions incident))),
                   (''rootCause'', VStr (rootCauseAnalysis rep)),
                   (''recommendations'', vstrs (preventionRecommendations rep))],
              w4))"

definition runReporterAgent :: "string \<Rightarrow> World \<Rightarrow> AgentResult \<times> World" where
  "runReporterAgent incId = executeAgent ''Incident Reporter'' incId (reporter_body incId)"

section \<open>The orchestrator (orchestrator.ts)\<close>

text \<open>
  What the three concurrent probes of \<open>getHealthSnapshot\<close> return (\<open>checkDemoAppHealth\<close>,
  \<open>checkPrometheusHealth\<close>, \<open>getMetrics\<close>, none of which throws), and the time until the
  last of them has settled.
\<close>

record Probes =
  demoAppProbe :: DemoAppHealth
  prometheusProbe :: ProbeHealth
  metricsProbe :: Metrics
  probesElapsed :: nat

definition getHealthSnapshot :: "Probes \<Rightarrow> World \<Rightarrow> HealthSnapshot \<times> World" where
  "getHealthSnapshot p w =
     (let w1 = w \<lparr> now := now w + probesElapsed p \<rparr>;
          app = demoAppProbe p;
          snapshot =
            \<lparr> demoApp = app,
              database =
                \<lparr> ProbeHealth.healthy = DemoAppHealth.healthy app,
                  ProbeHealth.error = (if DemoAppHealth.healthy app then None
                                       else Some ''Inferred from app health'') \<rparr>,
              prometheus = prometheusProbe p,
              metrics = metricsProbe p,
              HealthSnapshot.timestamp = now w1 \<rparr>;
          w2 = publish (if DemoAppHealth.healthy app then health_healthy else health_degraded)
                 [(''demoApp'', VBool (DemoAppHealth.healthy app)),
                  (''prometheus'', VBool (ProbeHealth.healthy (prometheusProbe p))),
                  (''responseTimeMs'', VNum (responseTimeMs app)),
                  (''errorRate'', VNum (errorRate (metricsProbe p)))] w1
      in (snapshot, w2))"

text \<open>
  \<open>runPipeline\<close>. The fix strategy the analyzer returns is always a string; the
  \<open>|| 'restart_service'\<close> replaces a missing or empty one.
\<close>

definition runPipeline :: "AnomalyReport \<Rightarrow> HealthSnapshot \<Rightarrow> PipelineEnv \<Rightarrow> World \<Rightarrow> World" where
  "runPipeline anomaly snapshot env w =
     (let w0 = w \<lparr> pipelineRunning := True \<rparr>;
          (incident, w1) = createIncident (AnomalyReport.failureType anomaly)
                             (AnomalyReport.severity anomaly)
                             (AnomalyReport.affectedServices anomaly) (randomSuffix env) w0;
          incId = Incident.id' incident;
          (observabilityResult, w2) = runObservabilityAgent incId anomaly snapshot w1;
          (analyzerResult, w3) = runAnalyzerAgent incId anomaly snapshot w2;
          fixStrategy = (case get_prop (AgentResult.data analyzerResult) ''fixStrategy'' of
                           VStr s \<Rightarrow> if s = [] then ''restart_service'' else s
                         | _ \<Rightarrow> ''restart_service'');
          (healingResult, w4) = runHealingAgent incId fixStrategy env w3;
          healingSuccess = truthy (get_prop (AgentResult.data healingResult) ''success'');
          (decisionResult, w5) = runRecoveryDecisionAgent incId healingSuccess w4;
          decision = get_prop (AgentResult.data decisionResult) ''decision'';
          w6 = (if decision = VStr ''resolved'' then
                  snd (runReporterAgent incId w5)
                else if decision = VStr ''escalate_dr'' then
                  let w5a = updateStatus incId escalated w5;
                      (drResult, w5b) = runDisasterRecoveryAgent incId env w5a;
                      readyForTraffic =
                        truthy (get_prop (AgentResult.data drResult) ''readyForTraffic'');
                      (trafficResult, w5c) = runTrafficSwitchAgent incId readyForTraffic env w5b
                  in snd (runReporterAgent incId w5c)
                else w5);
          w7 = w6 \<lparr> consecutiveUnhealthy := 0 \<rparr>
      in w7 \<lparr> pipelineRunning := False \<rparr>)"

text \<open>One tick of the timer: what the probes return and what the pipeline, if it runs, is answered.\<close>

record Poll =
  probes :: Probes
  pipelineEnv :: PipelineEnv

definition monitoringLoop :: "Poll \<Rightarrow> World \<Rightarrow> World" where
  "monitoringLoop p w =
     (if pipelineRunning w then w
      else
        let (snapshot, w1) = getHealthSnapshot (probes p) w;
            w2 = w1 \<lparr> lastHealthSnapshot := Some snapshot \<rparr>;
            w3 = publish health_check
                   [(''healthy'', VBool (DemoAppHealth.healthy (demoApp snapshot))),
                    (''statusCode'', VNum (statusCode (demoApp snapshot))),
                    (''responseTimeMs'', VNum (responseTimeMs (demoApp snapshot))),
                    (''errorRate'', VNum (errorRate (metrics snapshot))),
                    (''memoryMB'', VNum (memoryUsageMB (metrics snapshot))),
                    (''timestamp'', VIso (HealthSnapshot.timestamp snapshot))] w2
        in case detectAnomalies snapshot of
             Some anomaly \<Rightarrow>
               let w4 = w3 \<lparr> consecutiveUnhealthy := consecutiveUnhealthy w3 + 1 \<rparr>;
                   w5 = w4 \<lparr> consecutiveHealthy := 0 \<rparr>
               in if consecutiveUnhealthy w5 \<ge> 2 \<and> \<not> pipelineRunning w5 then
                    (case getActiveIncident w5 of
                       None \<Rightarrow>
                         let w6 = publish anomaly_detected
                                    [(''failureType'',
                                        VStr (failureType_str (AnomalyReport.failureType anomaly))),
                                     (''severity'',
                                        VStr (severity_str (AnomalyReport.severity anomaly))),
                                     (''description'', VTpl (description anomaly))] w5
                         in runPipeline anomaly snapshot (pipelineEnv p) w6
                     | Some activeIncident \<Rightarrow> w5)
                  else w5
           | None \<Rightarrow>
               let w4 = w3 \<lparr> consecutiveHealthy := consecutiveHealthy w3 + 1 \<rparr>
               in w4 \<lparr> consecutiveUnhealthy := 0 \<rparr>)"

definition start :: "Poll \<Rightarrow> World \<Rightarrow> World" where
  "start p w =
     (if running w then w
      else
        let w1 = w \<lparr> running := True \<rparr>;
            w2 = publish system_status
                   [(''status'', VStr ''monitoring''), (''message'', VStr ''Orchestrator started'')] w1;
            w3 = w2 \<lparr> pollTimer := True \<rparr>
        in monitoringLoop p w3)"

definition stop :: "World \<Rightarrow> World" where
  "stop w =
     (let w1 = w \<lparr> running := False \<rparr>;
          w2 = (if pollTimer w1 then w1 \<lparr> pollTimer := False \<rparr> else w1)
      in publish system_status
           [(''status'', VStr ''stopped''), (''message'', VStr ''Orchestrator stopped'')] w2)"

text \<open>A sequence of ticks, each run to its end before the next.\<close>

fun run_polls :: "Poll list \<Rightarrow> World \<Rightarrow> World" where
  "run_polls [] w = w"
| "run_polls (p # ps) w = run_polls ps (monitoringLoop p w)"

section \<open>Observing a run\<close>

text \<open>What \<open>createIncident\<close> writes into an incident and no later step changes.\<close>

definition creation :: "Incident \<Rightarrow> string \<times> nat \<times> FailureType \<times> Severity \<times> string list" where
  "creation inc =
     (Incident.id' inc, Incident.timestamp inc, Incident.failureType inc, Incident.severity inc,
      Incident.affectedServices inc)"

text \<open>
  What a stage working on incident \<open>i\<close> leaves alone between the state \<open>w\<close> before and the
  state \<open>w'\<close> after: every other incident of the store, the ids the store holds and their
  order, the \<open>creation\<close> of incident \<open>i\<close>, the fields of the orchestrator and the subscribers
  of the bus.
\<close>

definition stage_frame :: "string \<Rightarrow> World \<Rightarrow> World \<Rightarrow> bool" where
  "stage_frame i w w' =
     ((\<forall>j. j \<noteq> i \<longrightarrow> DAList.lookup (incidents w') j = DAList.lookup (incidents w) j)
      \<and> map fst (DAList.impl_of (incidents w')) = map fst (DAList.impl_of (incidents w))
      \<and> map_option creation (DAList.lookup (incidents w') i)
          = map_option creation (DAList.lookup (incidents w) i)
      \<and> running w' = running w
      \<and> pollTimer w' = pollTimer w
      \<and> pipelineRunning w' = pipelineRunning w
      \<and> lastHealthSnapshot w' = lastHealthSnapshot w
      \<and> consecutiveHealthy w' = consecutiveHealthy w
      \<and> consecutiveUnhealthy w' = consecutiveUnhealthy w
      \<and> listeners (bus w') = listeners (bus w))"

text \<open>
  The states a run of \<open>runPipeline\<close> passes through, one after each step of its \<open>try\<close>
  block: these are the states other code can see while the pipeline awaits.
\<close>

definition pipeline_states ::
  "AnomalyReport \<Rightarrow> HealthSnapshot \<Rightarrow> PipelineEnv \<Rightarrow> World \<Rightarrow> World list" where
  "pipeline_states anomaly snapshot env w =
     (let w0 = w \<lparr> pipelineRunning := True \<rparr>;
          (incident, w1) = createIncident (AnomalyReport.failureType anomaly)
                             (AnomalyReport.severity anomaly)
                             (AnomalyReport.affectedServices anomaly) (randomSuffix env) w0;
          incId = Incident.id' incident;
          (observabilityResult, w2) = runObservabilityAgent incId anomaly snapshot w1;
          (analyzerResult, w3) = runAnalyzerAgent incId anomaly snapshot w2;
          fixStrategy = (case get_prop (AgentResult.data analyzerResult) ''fixStrategy'' of
                           VStr s \<Rightarrow> if s = [] then ''restart_service'' else s
                         | _ \<Rightarrow> ''restart_service'');
          (healingResult, w4) = runHealingAgent incId fixStrategy env w3;
          healingSuccess = truthy (get_prop (AgentResult.data healingResult) ''success'');
          (decisionResult, w5) = runRecoveryDecisionAgent incId healingSuccess w4;
          decision = get_prop (AgentResult.data decisionResult) ''decision''
      in [w0, w1, w2, w3, w4, w5] @
         (if decision = VStr ''resolved'' then
            [snd (runReporterAgent incId w5)]
          else if decision = VStr ''escalate_dr'' then
            let w5a = updateStatus incId escalated w5;
                (drResult, w5b) = runDisasterRecoveryAgent incId env w5a;
                readyForTraffic =
                  truthy (get_prop (AgentResult.data drResult) ''readyForTraffic'');
                (trafficResult, w5c) = runTrafficSwitchAgent incId readyForTraffic env w5b
            in [w5a, w5b, w5c, snd (runReporterAgent incId w5c)]
          else []))"

text \<open>No incident of the store other than \<open>i\<close> is active.\<close>

definition others_inactive :: "string \<Rightarrow> World \<Rightarrow> bool" where
  "others_inactive i w =
     (\<forall>j inc. j \<noteq> i \<longrightarrow> DAList.lookup (incidents w) j = Some inc \<longrightarrow> \<not> active inc)"

text \<open>The number of recovery attempts recorded on an incident, 0 when the store does not hold it.\<close>

definition attempts_of :: "string \<Rightarrow> World \<Rightarrow> nat" where
  "attempts_of i w = (case DAList.lookup (incidents w) i of None \<Rightarrow> 0
                      | Some inc \<Rightarrow> length (attemptedActions inc))"

text \<open>
  The events a step publishes: between the state \<open>w\<close> before and the state \<open>w'\<close> after, the
  history has gained the events \<open>es\<close> at its end and lost none but at its front, and the last
  of \<open>es\<close> is still there. \<open>published\<close> gives the types of the events only.
\<close>

definition emitted :: "World \<Rightarrow> World \<Rightarrow> BusEvent list \<Rightarrow> bool" where
  "emitted w w' es =
     (if es = [] then eventHistory (bus w') = eventHistory (bus w)
      else \<exists>k < length (eventHistory (bus w) @ es).
             eventHistory (bus w') = drop k (eventHistory (bus w) @ es))"

definition published :: "World \<Rightarrow> World \<Rightarrow> EventType list \<Rightarrow> bool" where
  "published w w' tys = (\<exists>es. emitted w w' es \<and> map type es = tys)"

text \<open>The state in which \<open>executeAgent\<close> calls the body of a stage.\<close>

definition started :: "string \<Rightarrow> string \<Rightarrow> World \<Rightarrow> World" where
  "started name i w =
     addTimeline i (name @ '' started'') None
       (publish agent_start [(''agent'', VStr name), (''incidentId'', VStr i)] w)"

text \<open>The classification of a tick: the snapshot does not depend on the state but for its time.\<close>

definition poll_anomaly :: "Poll \<Rightarrow> AnomalyReport option" where
  "poll_anomaly p = detectAnomalies (fst (getHealthSnapshot (probes p) (initial_world 0)))"

section \<open>Concrete inputs\<close>

text \<open>A bus that holds one event, and a bus whose first subscriber throws.\<close>

definition bus1 :: EventBus where
  "bus1 = snd (emit health_check [] 0 new_bus)"

definition bus2 :: EventBus where
  "bus2 = onEvent (\<lambda>e. None) (onEvent (\<lambda>e. Some ''boom'') new_bus)"

text \<open>An incident that has been resolved, and a store that holds it.\<close>

definition incident0 :: Incident where
  "incident0 =
     \<lparr> Incident.id' = ''INC-0-ABCDEF'',
       Incident.timestamp = 0,
       Incident.status = resolved,
       Incident.failureType = memory_leak,
       Incident.severity = medium,
       Incident.affectedServices = [''demo-app''],
       rootCause = None,
       attemptedActions = [],
       resolvedAt = Some 7,
       report = None,
       Incident.timeline = None \<rparr>"

text \<open>A demo application that does not answer, and a pipeline run against it.\<close>

definition down :: Fetch where
  "down = \<lparr> elapsed = 10, result = Inl ''fetch failed'' \<rparr>"

definition env0 :: PipelineEnv where
  "env0 = \<lparr> randomSuffix = ''ABCDEF'', healReset = down, healHealth = down, drReset = down,
            drHealth = (\<lambda>i. down), trafficHealth = down \<rparr>"

definition world0 :: World where
  "world0 = (initial_world 9) \<lparr> incidents := DAList.update ''INC-0-ABCDEF'' incident0 DAList.empty \<rparr>"

text \<open>The program at time 9, its store holding the resolved incident.\<close>

definition world1 :: World where
  "world1 = (program_world 9) \<lparr> incidents := DAList.update ''INC-0-ABCDEF'' incident0 DAList.empty \<rparr>"

text \<open>A tick that finds the demo application down, one that finds it healthy, and the report
  the classifier gives for the first.\<close>

definition probes_down :: Probes where
  "probes_down =
     \<lparr> demoAppProbe = \<lparr> DemoAppHealth.healthy = False, statusCode = Finite 0,
                         responseTimeMs = Finite 50, DemoAppHealth.error = Some ''fetch failed'' \<rparr>,
       prometheusProbe = \<lparr> ProbeHealth.healthy = True, ProbeHealth.error = None \<rparr>,
       metricsProbe = \<lparr> errorRate = Finite 0, latencyP99Ms = Finite 0, memoryUsageMB = Finite 0,
                        podRestarts = Finite 0, httpRequestsTotal = Finite 0 \<rparr>,
       probesElapsed = 50 \<rparr>"

definition probes_up :: Probes where
  "probes_up =
     \<lparr> demoAppProbe = \<lparr> DemoAppHealth.healthy = True, statusCode = Finite 200,
                         responseTimeMs = Finite 20, DemoAppHealth.error = None \<rparr>,
       prometheusProbe = \<lparr> ProbeHealth.healthy = True, ProbeHealth.error = None \<rparr>,
       metricsProbe = \<lparr> errorRate = Finite 0, latencyP99Ms = Finite 0, memoryUsageMB = Finite 0,
                        podRestarts = Finite 0, httpRequestsTotal = Finite 0 \<rparr>,
       probesElapsed = 20 \<rparr>"

definition poll_down :: Poll where
  "poll_down = \<lparr> probes = probes_down, pipelineEnv = env0 \<rparr>"

definition poll_up :: Poll where
  "poll_up = \<lparr> probes = probes_up, pipelineEnv = env0 \<rparr>"

definition anomaly_down :: AnomalyReport where
  "anomaly_down =
     \<lparr> detected = True,
       AnomalyReport.failureType = service_down,
       AnomalyReport.severity = critical,
       AnomalyReport.affectedServices = [''demo-app''],
       evidence = [(''statusCode'', VNum (Finite 0)), (''error'', VStr ''fetch failed''),
                   (''responseTimeMs'', VNum (Finite 50))],
       description =
         [Lit ''Demo application is completely unreachable. Service appears to be down.''] \<rparr>"

section \<open>The classifier\<close>

text \<open>
  C1, as the code has it. For every snapshot whose \<open>demoApp.healthy\<close> is false and whose
  \<open>demoApp.statusCode\<close> is 0, \<open>detectAnomalies\<close> returns a report with failure type
  \<open>service_down\<close> and severity \<open>critical\<close>, whatever the other fields are.
\<close>

theorem detectAnomalies_unreachable:
  assumes "\<not> DemoAppHealth.healthy (demoApp snapshot)"
    and "statusCode (demoApp snapshot) = Finite 0"
  shows "verdict (detectAnomalies snapshot) = Some (service_down, critical)"
  using assms by (simp add: detectAnomalies_def verdict_def)

theorem detectAnomalies_unreachable_witness:
  "\<not> DemoAppHealth.healthy (demoApp (snapshot0 False 0))
   \<and> statusCode (demoApp (snapshot0 False 0)) = Finite 0
   \<and> verdict (detectAnomalies (snapshot0 False 0)) = Some (service_down, critical)"
  using detectAnomalies_unreachable [of "snapshot0 False 0"]
  by (simp add: snapshot0_def)

text \<open>
  C1 as stated fails: the first rule also tests \<open>!snapshot.demoApp.healthy\<close>, so a snapshot
  with status code 0 and \<open>healthy = true\<close> is not classified at all.
\<close>

theorem detectAnomalies_status0_counterexample:
  "statusCode (demoApp (snapshot0 True 0)) = Finite 0
   \<and> detectAnomalies (snapshot0 True 0) = None"
  by (simp add: detectAnomalies_def snapshot0_def)

text \<open>
  C2, as the code has it. \<open>detectAnomalies\<close> is a function of the snapshot alone and returns
  at most one report, whose verdict is decided first-match in this order: \<open>healthy\<close> false
  and status code 0 gives \<open>service_down\<close>/\<open>critical\<close>; \<open>healthy\<close> false and status code 503
  gives \<open>service_down\<close>/\<open>high\<close>; response time above 2000 ms gives \<open>latency_spike\<close>/\<open>high\<close>;
  error rate above 5 gives \<open>dependency_failure\<close>/\<open>high\<close>; memory above 200 MB gives
  \<open>memory_leak\<close>/\<open>medium\<close>; a snapshot matching none of the five gets no report.
\<close>

theorem detectAnomalies_first_match:
  "verdict (detectAnomalies snapshot) =
     (if \<not> DemoAppHealth.healthy (demoApp snapshot)
         \<and> js_strict_eq (statusCode (demoApp snapshot)) (Finite 0) then Some (service_down, critical)
      else if \<not> DemoAppHealth.healthy (demoApp snapshot)
         \<and> js_strict_eq (statusCode (demoApp snapshot)) (Finite 503) then Some (service_down, high)
      else if js_gt (responseTimeMs (demoApp snapshot)) (Finite 2000) then Some (latency_spike, high)
      else if js_gt (errorRate (metrics snapshot)) (Finite 5) then Some (dependency_failure, high)
      else if js_gt (memoryUsageMB (metrics snapshot)) (Finite 200) then Some (memory_leak, medium)
      else None)"
  by (simp add: detectAnomalies_def verdict_def)

text \<open>
  C2 as stated fails: the rule table of the specification decides its first two rules on
  the status code alone. A snapshot with status code 503 and \<open>healthy = true\<close> matches its
  second rule, and the code returns no report for it.
\<close>

theorem classify_spec_counterexample:
  "classify_spec (snapshot0 True 503) = Some (service_down, high)
   \<and> verdict (detectAnomalies (snapshot0 True 503)) = None"
  by (simp add: detectAnomalies_def verdict_def classify_spec_def snapshot0_def)

section \<open>The event bus\<close>

lemma js_slice_neg: "0 < k \<Longrightarrow> js_slice (- int k) xs = drop (length xs - k) xs"
  by (auto simp: js_slice_def Let_def max_def nat_diff_distrib)

lemma js_slice_maxHistory: "js_slice (- 500) xs = drop (length xs - 500) xs"
  using js_slice_neg [of 500 xs] by simp

lemma eventHistory_emit:
  "eventHistory (snd (emit ty d t b)) =
     drop (length (eventHistory b) + 1 - 500)
       (eventHistory b @ [\<lparr> type = ty, BusEvent.timestamp = t, BusEvent.data = d \<rparr>])"
  by (simp add: emit_def Let_def split_def maxHistory_def js_slice_maxHistory)

lemma listeners_emit [simp]: "listeners (snd (emit ty d t b)) = listeners b"
  by (simp add: emit_def Let_def split_def)

lemma call_listeners_quiet:
  "\<forall>h \<in> set hs. h e = None \<Longrightarrow> fst (call_listeners hs i e calls) = None"
  by (induction hs arbitrary: i calls) simp_all

text \<open>On a quiet bus every \<open>emit\<close> returns, and \<open>publish\<close> gives the state it leaves.\<close>

lemma emit_quiet: "quiet b \<Longrightarrow> fst (emit ty d t b) = Inr (listeners b \<noteq> [])"
proof -
  assume "quiet b"
  then have "fst (call_listeners (listeners b) 0
                \<lparr> type = ty, BusEvent.timestamp = t, BusEvent.data = d \<rparr> (delivered b)) = None"
    by (intro call_listeners_quiet) (simp add: quiet_def)
  then show ?thesis
    by (simp add: emit_def super_emit_def Let_def split_def split: option.splits)
qed

lemma quiet_publish: "quiet (bus (publish ty d w)) = quiet (bus w)"
  by (simp add: publish_def quiet_def)

text \<open>The bus of the program is quiet.\<close>

lemma quiet_program_bus: "quiet program_bus"
  by (simp add: quiet_def program_bus_def onEvent_def new_bus_def console_logger_def
      ws_broadcaster_def)

lemma quiet_program_world: "quiet (bus (program_world t))"
  by (simp add: program_world_def quiet_program_bus)

text \<open>
  C5, as the code has it. After every \<open>emit\<close> the history holds at most 500 events; it is
  the old history with the new event appended, cut at the front (the oldest events go
  first); and for every limit of at least 1, \<open>getHistory(limit)\<close> returns the most recent
  \<open>min(limit, length)\<close> retained events, oldest first.
\<close>

theorem history_bounded:
  "length (eventHistory (snd (emit ty d t b))) \<le> 500
   \<and> eventHistory (snd (emit ty d t b)) =
       drop (length (eventHistory b) + 1 - 500)
         (eventHistory b @ [\<lparr> type = ty, BusEvent.timestamp = t, BusEvent.data = d \<rparr>])
   \<and> (1 \<le> limit \<longrightarrow> getHistory limit b = most_recent (nat limit) (eventHistory b))"
proof -
  have "1 \<le> limit \<Longrightarrow> getHistory limit b = most_recent (nat limit) (eventHistory b)"
    using js_slice_neg [of "nat limit" "eventHistory b"]
    by (simp add: getHistory_def most_recent_def min_def)
  then show ?thesis
    by (simp add: eventHistory_emit)
qed

theorem history_bounded_witness:
  "(1::int) \<le> 1
   \<and> getHistory 1 bus1 = most_recent (nat 1) (eventHistory bus1)
   \<and> length (eventHistory (snd (emit health_check [] 0 bus1))) \<le> 500"
  using history_bounded [of health_check "[]" 0 bus1 1] by simp

text \<open>
  C5 as stated fails at the limit 0: \<open>slice(-0)\<close> is \<open>slice(0)\<close>, so \<open>getHistory(0)\<close> returns
  the whole history and not its most recent \<open>min(0, length) = 0\<close> events.
\<close>

theorem getHistory_zero_counterexample:
  "getHistory 0 bus1 \<noteq> most_recent 0 (eventHistory bus1)"
  by (simp add: bus1_def getHistory_def most_recent_def emit_def new_bus_def js_slice_def Let_def
      super_emit_def maxHistory_def)

lemma call_listeners_char:
  "call_listeners hs i e calls =
     (let k = length (takeWhile (\<lambda>h. h e = None) hs)
      in (if k < length hs then (hs ! k) e else None,
          calls @ map (\<lambda>j. (j, e)) [i ..< i + min (Suc k) (length hs)]))"
proof (induction hs arbitrary: i calls)
  case Nil
  then show ?case by simp
next
  case (Cons h hs)
  show ?case
  proof (cases "h e")
    case None
    define m where "m = min (Suc (length (takeWhile (\<lambda>h. h e = None) hs))) (length hs)"
    have upt: "[i ..< i + Suc m] = i # [Suc i ..< Suc i + m]"
      by (simp add: upt_conv_Cons)
    have k: "length (takeWhile (\<lambda>h. h e = None) (h # hs))
               = Suc (length (takeWhile (\<lambda>h. h e = None) hs))"
      using None by simp
    have "min (Suc (length (takeWhile (\<lambda>h. h e = None) (h # hs)))) (length (h # hs)) = Suc m"
      unfolding k m_def by simp
    moreover have "call_listeners (h # hs) i e calls
                     = call_listeners hs (Suc i) e (calls @ [(i, e)])"
      using None by simp
    ultimately show ?thesis
      using Cons.IH [of "Suc i" "calls @ [(i, e)]"] k upt
      unfolding Let_def m_def by simp
  next
    case (Some msg)
    then show ?thesis by (simp add: Let_def)
  qed
qed

lemma super_emit_char:
  "super_emit hs e calls =
     (let k = length (takeWhile (\<lambda>h. h e = None) hs)
      in (if k < length hs then Inl (the ((hs ! k) e)) else Inr (hs \<noteq> []),
          calls @ map (\<lambda>j. (j, e)) [0 ..< min (Suc k) (length hs)]))"
proof (cases "length (takeWhile (\<lambda>h. h e = None) hs) < length hs")
  case True
  then have "(hs ! length (takeWhile (\<lambda>h. h e = None) hs)) e \<noteq> None"
    using nth_length_takeWhile [of "\<lambda>h. h e = None" hs] by simp
  then obtain msg where "(hs ! length (takeWhile (\<lambda>h. h e = None) hs)) e = Some msg"
    by blast
  with True show ?thesis
    by (simp add: super_emit_def call_listeners_char Let_def)
next
  case False
  then show ?thesis
    by (simp add: super_emit_def call_listeners_char Let_def)
qed

text \<open>
  C9, as the code has it. \<open>emit\<close> appends the event to the bounded history before any
  handler runs, so the event is in the history whether or not a handler throws. The handlers
  are called in subscription order up to and including the first one that throws: with \<open>k\<close>
  the number of handlers ahead of it, the handlers at positions \<open>0 .. k\<close> receive the event,
  those subscribed after it do not, and \<open>emit\<close> throws that handler's exception to its
  caller. When no handler throws, all receive the event and \<open>emit\<close> returns.
\<close>

theorem emit_propagates:
  "let ev = \<lparr> type = ty, BusEvent.timestamp = t, BusEvent.data = d \<rparr>;
       k = length (takeWhile (\<lambda>h. h ev = None) (listeners b))
   in eventHistory (snd (emit ty d t b)) =
        drop (length (eventHistory b) + 1 - 500) (eventHistory b @ [ev])
      \<and> delivered (snd (emit ty d t b)) =
          delivered b @ map (\<lambda>j. (j, ev)) [0 ..< min (Suc k) (length (listeners b))]
      \<and> fst (emit ty d t b) =
          (if k < length (listeners b) then Inl (the ((listeners b ! k) ev))
           else Inr (listeners b \<noteq> []))"
  by (simp add: emit_def super_emit_char Let_def split_def maxHistory_def js_slice_maxHistory)

text \<open>
  C9 as stated fails: with a first subscriber that throws and a second that does not,
  \<open>emit\<close> throws to its caller and the second subscriber is never called.
\<close>

theorem emit_isolation_counterexample:
  "fst (emit health_check [] 0 bus2) = Inl ''boom''
   \<and> delivered (snd (emit health_check [] 0 bus2)) =
       [(0, \<lparr> type = health_check, BusEvent.timestamp = 0, BusEvent.data = [] \<rparr>)]"
  by (simp add: bus2_def onEvent_def new_bus_def emit_def super_emit_def Let_def)

section \<open>The incident store\<close>

lemma incidents_publish [simp]: "incidents (publish ty d w) = incidents w"
  by (simp add: publish_def)

text \<open>
  C10. \<open>updateStatus\<close> validates no transition: for every incident id present in the store
  and every target status, the incident afterwards has the requested status, whatever its
  status was (a \<open>resolved\<close> or \<open>failed\<close> incident can be moved back to any other status), and
  every call with status \<open>resolved\<close> sets \<open>resolvedAt\<close> to the current time; nothing else of
  the incident changes.
\<close>

theorem updateStatus_unchecked:
  assumes "DAList.lookup (incidents w) incId = Some incident"
  shows "DAList.lookup (incidents (updateStatus incId st w)) incId =
           Some (incident \<lparr> Incident.status := st,
                   resolvedAt := (if st = resolved then Some (now w) else resolvedAt incident) \<rparr>)"
  using assms by (simp add: updateStatus_def Let_def)

theorem updateStatus_unchecked_witness:
  "DAList.lookup (incidents world0) ''INC-0-ABCDEF'' = Some incident0
   \<and> Incident.status incident0 = resolved
   \<and> DAList.lookup (incidents (updateStatus ''INC-0-ABCDEF'' analyzing world0)) ''INC-0-ABCDEF'' =
       Some (incident0 \<lparr> Incident.status := analyzing, resolvedAt := Some 7 \<rparr>)"
  using updateStatus_unchecked [of world0 "''INC-0-ABCDEF''" incident0 analyzing]
  by (simp add: world0_def incident0_def)

section \<open>Frames\<close>

lemma keys_update_present:
  "DAList.lookup al k = Some x \<Longrightarrow>
     map fst (DAList.impl_of (DAList.update k v al)) = map fst (DAList.impl_of al)"
  by (auto simp: DAList.update.rep_eq DAList.lookup.rep_eq update_keys dest: map_of_SomeD
      intro: rev_image_eqI)

lemma keys_present_iff:
  "(k \<in> set (map fst (DAList.impl_of al))) = (DAList.lookup al k \<noteq> None)"
  by (simp add: DAList.lookup.rep_eq map_of_eq_None_iff)

lemma frame_refl [simp]: "stage_frame i w w"
  by (simp add: stage_frame_def)

lemma frame_trans: "stage_frame i w w1 \<Longrightarrow> stage_frame i w1 w2 \<Longrightarrow> stage_frame i w w2"
  by (simp add: stage_frame_def)

lemma frame_publish: "stage_frame i w (publish ty d w)"
  by (simp add: stage_frame_def publish_def)

lemma frame_sleep: "stage_frame i w (sleep ms w)"
  by (simp add: stage_frame_def sleep_def)

lemma frame_await_fetch: "stage_frame i w (snd (await_fetch f w))"
  by (simp add: stage_frame_def await_fetch_def)

lemma frame_addTimeline: "stage_frame i w (addTimeline i ev det w)"
  by (simp add: stage_frame_def addTimeline_def Let_def keys_update_present creation_def
      split: option.splits)

lemma frame_updateStatus: "stage_frame i w (updateStatus i st w)"
  by (simp add: stage_frame_def updateStatus_def Let_def publish_def keys_update_present
      creation_def split: option.splits)

lemma frame_setRootCause: "stage_frame i w (setRootCause i c w)"
  by (simp add: stage_frame_def setRootCause_def keys_update_present creation_def
      split: option.splits)

lemma frame_setReport: "stage_frame i w (setReport i r w)"
  by (simp add: stage_frame_def setReport_def Let_def publish_def keys_update_present
      creation_def split: option.splits)

lemma frame_addRecoveryAttempt: "stage_frame i w (addRecoveryAttempt i a w)"
proof (cases "DAList.lookup (incidents w) i")
  case None
  then show ?thesis by (simp add: addRecoveryAttempt_def)
next
  case (Some incident)
  define w1 where "w1 = w \<lparr> incidents :=
     DAList.update i (incident \<lparr> attemptedActions := attemptedActions incident @ [a] \<rparr>) (incidents w) \<rparr>"
  have 1: "stage_frame i w w1"
    using Some by (simp add: stage_frame_def w1_def keys_update_present creation_def)
  obtain ev det ty d where "addRecoveryAttempt i a w = addTimeline i ev det (publish ty d w1)"
    using Some unfolding addRecoveryAttempt_def Let_def w1_def by simp
  then show ?thesis
    using 1 frame_trans frame_publish frame_addTimeline by metis
qed

lemmas frame_steps =
  frame_trans [OF _ frame_publish] frame_trans [OF _ frame_sleep]
  frame_trans [OF _ frame_await_fetch] frame_trans [OF _ frame_addTimeline]
  frame_trans [OF _ frame_updateStatus] frame_trans [OF _ frame_setRootCause]
  frame_trans [OF _ frame_setReport] frame_trans [OF _ frame_addRecoveryAttempt]

lemma frame_executeAgent:
  assumes "\<And>v. stage_frame i v (snd (fn v))"
  shows "stage_frame i w (snd (executeAgent name i fn w))"
proof -
  define w2 where "w2 = addTimeline i (name @ '' started'') None
     (publish agent_start [(''agent'', VStr name), (''incidentId'', VStr i)] w)"
  have 2: "stage_frame i w w2"
    unfolding w2_def by (intro frame_steps frame_refl)
  have 3: "stage_frame i w (snd (fn w2))"
    using 2 assms frame_trans by blast
  show ?thesis
    unfolding executeAgent_def Let_def w2_def [symmetric]
    using 3 by (cases "fn w2") (auto split: sum.splits intro!: frame_steps)
qed



lemma frame_observability: "stage_frame i w (snd (runObservabilityAgent i a s w))"
  unfolding runObservabilityAgent_def
  by (rule frame_executeAgent) (simp add: Let_def frame_sleep)

lemma frame_analyzer: "stage_frame i w (snd (runAnalyzerAgent i a s w))"
  unfolding runAnalyzerAgent_def
  by (rule frame_executeAgent) (auto simp: Let_def split_def intro!: frame_steps)

lemma frame_healing_attempt: "stage_frame i w (snd (healing_attempt i fs env w))"
  unfolding healing_attempt_def Let_def split_def
  by (auto split: sum.splits intro!: frame_steps)

lemma frame_healing: "stage_frame i w (snd (runHealingAgent i fs env w))"
  unfolding runHealingAgent_def
  by (rule frame_executeAgent)
     (auto simp: Let_def split_def intro!: frame_steps frame_trans [OF _ frame_healing_attempt])

lemma frame_decision: "stage_frame i w (snd (runRecoveryDecisionAgent i hs w))"
  unfolding runRecoveryDecisionAgent_def
  by (rule frame_executeAgent) (auto simp: Let_def frame_sleep)

lemma frame_dr_health_checks: "stage_frame i w (snd (dr_health_checks n k f w))"
proof (induction n arbitrary: k w)
  case 0
  then show ?case by simp
next
  case (Suc n)
  have "stage_frame i w (sleep 1000 (snd (await_fetch (f k) w)))"
    by (intro frame_steps frame_refl)
  then have "stage_frame i w (snd (dr_health_checks n (Suc k) f (sleep 1000 (snd (await_fetch (f k) w)))))"
    using Suc.IH frame_trans by blast
  then show ?case
    by (auto simp: split_def Let_def frame_await_fetch split: sum.splits)
qed

lemma frame_dr: "stage_frame i w (snd (runDisasterRecoveryAgent i env w))"
  unfolding runDisasterRecoveryAgent_def
  by (rule frame_executeAgent)
     (auto simp: Let_def split_def intro!: frame_steps frame_trans [OF _ frame_dr_health_checks])

lemma frame_traffic: "stage_frame i w (snd (runTrafficSwitchAgent i r env w))"
  unfolding runTrafficSwitchAgent_def
  by (rule frame_executeAgent) (auto simp: Let_def split_def intro!: frame_steps)


lemma frame_reporter: "stage_frame i w (snd (runReporterAgent i w))"
  unfolding runReporterAgent_def
  by (rule frame_executeAgent)
     (auto simp: reporter_body_def Let_def split_def split: option.splits intro!: frame_steps)

section \<open>Lookups\<close>

lemma bus_sleep [simp]: "bus (sleep ms w) = bus w" and incidents_sleep [simp]: "incidents (sleep ms w) = incidents w"
  and now_sleep [simp]: "now (sleep ms w) = now w + ms"
  by (simp_all add: sleep_def)

lemma now_publish [simp]: "now (publish ty d w) = now w"
  by (simp add: publish_def)

lemma lookup_addTimeline:
  "DAList.lookup (incidents (addTimeline i ev det w)) j =
     (if j = i then
        map_option (\<lambda>inc. inc \<lparr> Incident.timeline :=
            Some ((case Incident.timeline inc of None \<Rightarrow> [] | Some es \<Rightarrow> es)
                  @ [\<lparr> TimelineEvent.timestamp = now w, event = ev, details = det \<rparr>]) \<rparr>)
          (DAList.lookup (incidents w) i)
      else DAList.lookup (incidents w) j)"
  by (simp add: addTimeline_def Let_def split: option.splits)

lemma now_addTimeline [simp]: "now (addTimeline i ev det w) = now w"
  and bus_addTimeline [simp]: "bus (addTimeline i ev det w) = bus w"
  by (simp_all add: addTimeline_def Let_def split: option.splits)

lemma lookup_updateStatus:
  "DAList.lookup (incidents (updateStatus i st w)) j =
     (if j = i then
        map_option (\<lambda>inc. inc \<lparr> Incident.status := st,
            resolvedAt := (if st = resolved then Some (now w) else resolvedAt inc) \<rparr>)
          (DAList.lookup (incidents w) i)
      else DAList.lookup (incidents w) j)"
  by (simp add: updateStatus_def Let_def split: option.splits)

lemma now_updateStatus [simp]: "now (updateStatus i st w) = now w"
  by (simp add: updateStatus_def Let_def split: option.splits)

lemma lookup_setReport:
  "DAList.lookup (incidents (setReport i rep w)) j =
     (if j = i then map_option (\<lambda>inc. inc \<lparr> report := Some rep \<rparr>) (DAList.lookup (incidents w) i)
      else DAList.lookup (incidents w) j)"
  by (simp add: setReport_def Let_def split: option.splits)

lemma now_setReport [simp]: "now (setReport i rep w) = now w"
  by (simp add: setReport_def Let_def split: option.splits)

section \<open>Creating an incident\<close>

lemma createIncident_snd:
  "snd (createIncident ft sev svc sfx w) =
     addTimeline (generateId (now w) sfx) ''Incident detected''
       (Some [(''failureType'', VStr (failureType_str ft)),
              (''severity'', VStr (severity_str sev)),
              (''affectedServices'', vstrs svc)])
       (publish incident_created
          [(''incidentId'', VStr (generateId (now w) sfx)),
           (''failureType'', VStr (failureType_str ft)),
           (''severity'', VStr (severity_str sev)),
           (''affectedServices'', vstrs svc)]
          (w \<lparr> incidents :=
               DAList.update (generateId (now w) sfx)
                 \<lparr> Incident.id' = generateId (now w) sfx,
                   Incident.timestamp = now w,
                   Incident.status = IncidentStatus.detected,
                   Incident.failureType = ft,
                   Incident.severity = sev,
                   Incident.affectedServices = svc,
                   rootCause = None,
                   attemptedActions = [],
                   resolvedAt = None,
                   report = None,
                   Incident.timeline = None \<rparr>
                 (incidents w) \<rparr>))"
  by (simp add: createIncident_def Let_def split: option.splits)

lemma createIncident_id [simp]:
  "Incident.id' (fst (createIncident ft sev svc sfx w)) = generateId (now w) sfx"
  by (simp add: createIncident_def Let_def getIncident_def lookup_addTimeline split: option.splits)

lemma createIncident_lookup:
  "DAList.lookup (incidents (snd (createIncident ft sev svc sfx w))) j =
     (if j = generateId (now w) sfx then
        Some \<lparr> Incident.id' = generateId (now w) sfx,
               Incident.timestamp = now w,
               Incident.status = IncidentStatus.detected,
               Incident.failureType = ft,
               Incident.severity = sev,
               Incident.affectedServices = svc,
               rootCause = None,
               attemptedActions = [],
               resolvedAt = None,
               report = None,
               Incident.timeline =
                 Some [\<lparr> TimelineEvent.timestamp = now w, event = ''Incident detected'',
                          details = Some [(''failureType'', VStr (failureType_str ft)),
                                          (''severity'', VStr (severity_str sev)),
                                          (''affectedServices'', vstrs svc)] \<rparr>] \<rparr>
      else DAList.lookup (incidents w) j)"
  by (simp add: createIncident_snd lookup_addTimeline)

lemma createIncident_keys:
  "map fst (DAList.impl_of (incidents (snd (createIncident ft sev svc sfx w)))) =
     (if DAList.lookup (incidents w) (generateId (now w) sfx) = None
      then map fst (DAList.impl_of (incidents w)) @ [generateId (now w) sfx]
      else map fst (DAList.impl_of (incidents w)))"
proof -
  let ?i = "generateId (now w) sfx"
  obtain inc ev det ty d where
    eq: "snd (createIncident ft sev svc sfx w) =
           addTimeline ?i ev det (publish ty d (w \<lparr> incidents := DAList.update ?i inc (incidents w) \<rparr>))"
    by (simp add: createIncident_snd)
  have "map fst (DAList.impl_of (incidents (snd (createIncident ft sev svc sfx w)))) =
          map fst (DAList.impl_of (DAList.update ?i inc (incidents w)))"
    unfolding eq using frame_addTimeline [of ?i "publish ty d (w \<lparr> incidents := DAList.update ?i inc (incidents w) \<rparr>)" ev det]
    by (simp add: stage_frame_def)
  moreover have "(DAList.lookup (incidents w) ?i = None) = (?i \<notin> set (map fst (DAList.impl_of (incidents w))))"
    using keys_present_iff [of ?i "incidents w"] by simp
  ultimately show ?thesis
    by (simp add: DAList.update.rep_eq update_keys)
qed

lemma createIncident_fields [simp]:
  "running (snd (createIncident ft sev svc sfx w)) = running w"
  "pollTimer (snd (createIncident ft sev svc sfx w)) = pollTimer w"
  "pipelineRunning (snd (createIncident ft sev svc sfx w)) = pipelineRunning w"
  "lastHealthSnapshot (snd (createIncident ft sev svc sfx w)) = lastHealthSnapshot w"
  "consecutiveHealthy (snd (createIncident ft sev svc sfx w)) = consecutiveHealthy w"
  "consecutiveUnhealthy (snd (createIncident ft sev svc sfx w)) = consecutiveUnhealthy w"
  "listeners (bus (snd (createIncident ft sev svc sfx w))) = listeners (bus w)"
  "now (snd (createIncident ft sev svc sfx w)) = now w"
  by (simp_all add: createIncident_snd addTimeline_def publish_def split: option.splits)

section \<open>Results of the stages\<close>

lemma executeAgent_result:
  "fst (executeAgent name i fn w) =
     (case fst (fn (addTimeline i (name @ '' started'') None
                     (publish agent_start [(''agent'', VStr name), (''incidentId'', VStr i)] w))) of
        Inr d \<Rightarrow> \<lparr> agent = name, AgentResult.success = True, AgentResult.data = d,
                    AgentResult.duration =
                      now (snd (fn (addTimeline i (name @ '' started'') None
                        (publish agent_start [(''agent'', VStr name), (''incidentId'', VStr i)] w))))
                      - now w \<rparr>
      | Inl msg \<Rightarrow> \<lparr> agent = name, AgentResult.success = False,
                      AgentResult.data = [(''error'', VStr msg)],
                      AgentResult.duration =
                        now (snd (fn (addTimeline i (name @ '' started'') None
                          (publish agent_start [(''agent'', VStr name), (''incidentId'', VStr i)] w))))
                        - now w \<rparr>)"
  by (simp add: executeAgent_def Let_def split_def split: sum.splits)

lemma decision_data:
  "AgentResult.data (fst (runRecoveryDecisionAgent i hs w)) =
     (if hs then
        [(''decision'', VStr ''resolved''),
         (''reason'', VStr ''Self-healing succeeded, service is healthy''),
         (''nextAction'', VStr ''generate_report'')]
      else if attempts_of i w \<ge> 3 then
        [(''decision'', VStr ''escalate_dr''),
         (''reason'', VStr (''Self-healing failed after '' @ show_nat (attempts_of i w)
             @ '' attempts. Escalating to disaster recovery.'')),
         (''nextAction'', VStr ''disaster_recovery'')]
      else
        [(''decision'', VStr ''escalate_dr''),
         (''reason'', VStr ''Self-healing failed. Escalating to disaster recovery.''),
         (''nextAction'', VStr ''disaster_recovery'')])"
  and decision_success: "AgentResult.success (fst (runRecoveryDecisionAgent i hs w))"
  by (auto simp: runRecoveryDecisionAgent_def executeAgent_result Let_def getIncident_def
      attempts_of_def lookup_addTimeline split: option.splits)

text \<open>
  C6. For every incident id, every state with a quiet bus and every boolean healing outcome,
  the Recovery Decision stage succeeds and returns the decision \<open>resolved\<close> (next action
  \<open>generate_report\<close>) when healing succeeded and \<open>escalate_dr\<close> (next action
  \<open>disaster_recovery\<close>) when it failed. The number of recovery attempts recorded on the
  incident only selects the text of \<open>reason\<close>: every healing failure escalates.
\<close>

theorem decision_by_healing_outcome:
  assumes "quiet (bus w)"
  shows "AgentResult.success (fst (runRecoveryDecisionAgent incId healingSuccess w))
    \<and> get_prop (AgentResult.data (fst (runRecoveryDecisionAgent incId healingSuccess w))) ''decision''
        = VStr (if healingSuccess then ''resolved'' else ''escalate_dr'')
    \<and> get_prop (AgentResult.data (fst (runRecoveryDecisionAgent incId healingSuccess w))) ''nextAction''
        = VStr (if healingSuccess then ''generate_report'' else ''disaster_recovery'')
    \<and> get_prop (AgentResult.data (fst (runRecoveryDecisionAgent incId healingSuccess w))) ''reason''
        = VStr (if healingSuccess then ''Self-healing succeeded, service is healthy''
                else if attempts_of incId w \<ge> 3 then
                  ''Self-healing failed after '' @ show_nat (attempts_of incId w)
                  @ '' attempts. Escalating to disaster recovery.''
                else ''Self-healing failed. Escalating to disaster recovery.'')"
  by (simp add: decision_data decision_success get_prop_def)

theorem decision_by_healing_outcome_witness:
  "quiet (bus world0)
   \<and> get_prop (AgentResult.data (fst (runRecoveryDecisionAgent ''INC-0-ABCDEF'' False world0)))
        ''decision'' = VStr ''escalate_dr''"
  using decision_by_healing_outcome [of world0 "''INC-0-ABCDEF''" False]
  by (simp add: quiet_def world0_def initial_world_def new_bus_def)

section \<open>Events\<close>

lemma drop_drop_append:
  "k < length A \<Longrightarrow> drop k' (drop k A @ B) = drop (k + k') (A @ B)"
proof -
  assume "k < length A"
  then have "drop k A @ B = drop k (A @ B)" by simp
  then show ?thesis by (simp only: drop_drop add.commute)
qed

lemma emitted_same_bus: "bus w' = bus w \<Longrightarrow> emitted w w' []"
  by (simp add: emitted_def)

lemma emitted_trans:
  assumes "emitted w w1 es" and "emitted w1 w2 es'"
  shows "emitted w w2 (es @ es')"
proof (cases "es = []")
  case True
  then show ?thesis using assms by (auto simp: emitted_def)
next
  case False
  note es = this
  show ?thesis
  proof (cases "es' = []")
    case True
    then show ?thesis using assms es by (auto simp: emitted_def)
  next
    case False
    let ?A = "eventHistory (bus w) @ es"
    obtain k where k: "k < length ?A" "eventHistory (bus w1) = drop k ?A"
      using assms(1) es by (auto simp: emitted_def)
    obtain k' where k': "k' < length (eventHistory (bus w1) @ es')"
      "eventHistory (bus w2) = drop k' (eventHistory (bus w1) @ es')"
      using assms(2) False by (auto simp: emitted_def)
    have "eventHistory (bus w2) = drop (k + k') (?A @ es')"
      unfolding k'(2) k(2) using k(1) by (rule drop_drop_append)
    moreover have "k + k' < length (?A @ es')"
      using k(1) k'(1) unfolding k(2) by simp
    ultimately have "\<exists>n < length (eventHistory (bus w) @ es @ es').
        eventHistory (bus w2) = drop n (eventHistory (bus w) @ es @ es')"
      by (metis append.assoc)
    then show ?thesis
      using False by (simp add: emitted_def)
  qed
qed

lemma emitted_publish:
  "emitted w (publish ty d w) [\<lparr> type = ty, BusEvent.timestamp = now w, BusEvent.data = d \<rparr>]"
  by (auto simp: emitted_def publish_def eventHistory_emit intro!: exI [of _ "length (eventHistory (bus w)) + 1 - 500"])

lemma emitted_last:
  "emitted w w' es \<Longrightarrow> es \<noteq> [] \<Longrightarrow> last (eventHistory (bus w')) = last es"
proof -
  assume "emitted w w' es" and es: "es \<noteq> []"
  then obtain k where k: "k < length (eventHistory (bus w) @ es)"
      "eventHistory (bus w') = drop k (eventHistory (bus w) @ es)"
    by (auto simp: emitted_def)
  have "last (drop k (eventHistory (bus w) @ es)) = last (eventHistory (bus w) @ es)"
    using k(1) by (rule last_drop)
  then show ?thesis
    using es k(2) by simp
qed

lemma published_same: "bus w' = bus w \<Longrightarrow> published w w' []"
  unfolding published_def using emitted_same_bus by fastforce

lemma published_trans: "published w w1 a \<Longrightarrow> published w1 w2 b \<Longrightarrow> published w w2 (a @ b)"
  unfolding published_def using emitted_trans by (metis map_append)

lemma published_publish: "published w (publish ty d w) [ty]"
  unfolding published_def using emitted_publish [of w ty d] by fastforce

lemma published_updateStatus:
  "DAList.lookup (incidents w) i \<noteq> None \<Longrightarrow> published w (updateStatus i st w) [incident_update]"
proof -
  assume "DAList.lookup (incidents w) i \<noteq> None"
  then obtain w1 d where "updateStatus i st w = publish incident_update d w1" "bus w1 = bus w"
    by (auto simp: updateStatus_def Let_def)
  then show ?thesis
    using published_trans [OF published_same published_publish, of w1 w incident_update d] by simp
qed

lemma published_setReport:
  "DAList.lookup (incidents w) i \<noteq> None \<Longrightarrow> published w (setReport i rep w) [report_generated]"
proof -
  assume "DAList.lookup (incidents w) i \<noteq> None"
  then obtain w1 d where "setReport i rep w = publish report_generated d w1" "bus w1 = bus w"
    by (auto simp: setReport_def Let_def)
  then show ?thesis
    using published_trans [OF published_same published_publish, of w1 w report_generated d] by simp
qed

lemma published_then_publish:
  "published w w1 tys \<Longrightarrow> published w (publish ty d w1) (tys @ [ty])"
  using published_trans published_publish by blast

lemma published_then_same:
  "published w w1 tys \<Longrightarrow> bus w2 = bus w1 \<Longrightarrow> published w w2 tys"
  using published_trans [OF _ published_same, of w w1 tys w2] by simp

lemma published_then_addTimeline:
  "published w w1 tys \<Longrightarrow> published w (addTimeline i ev det w1) tys"
  by (rule published_then_same) simp_all

lemma published_then_sleep:
  "published w w1 tys \<Longrightarrow> published w (sleep ms w1) tys"
  by (rule published_then_same) simp_all

lemma published_then_updateStatus:
  "published w w1 tys \<Longrightarrow> DAList.lookup (incidents w1) i \<noteq> None
     \<Longrightarrow> published w (updateStatus i st w1) (tys @ [incident_update])"
  using published_trans published_updateStatus by blast

lemma published_then_setReport:
  "published w w1 tys \<Longrightarrow> DAList.lookup (incidents w1) i \<noteq> None
     \<Longrightarrow> published w (setReport i rep w1) (tys @ [report_generated])"
  using published_trans published_setReport by blast

lemma published_start: "published w w []"
  by (rule published_same) simp

lemma last_event_publish:
  "last (eventHistory (bus (publish ty d w))) =
     \<lparr> type = ty, BusEvent.timestamp = now w, BusEvent.data = d \<rparr>"
  using emitted_last [OF emitted_publish [of w ty d]] by simp

section \<open>Traffic switch\<close>

lemma trafficSwitch_not_ready_eq:
  "runTrafficSwitchAgent i False env w =
     (\<lparr> agent = ''Traffic Switch Agent'', AgentResult.success = True,
         AgentResult.data = [(''trafficStatus'', VStr ''failed''),
                             (''reason'', VStr ''System not ready for traffic'')],
         AgentResult.duration = 0 \<rparr>,
      addTimeline i ''Traffic Switch Agent completed''
        (Some [(''duration'', vnat 0), (''trafficStatus'', VStr ''failed''),
               (''reason'', VStr ''System not ready for traffic'')])
        (publish agent_complete
           [(''agent'', VStr ''Traffic Switch Agent''), (''incidentId'', VStr i),
            (''success'', VBool True), (''duration'', vnat 0),
            (''data'', VObj [(''trafficStatus'', VStr ''failed''),
                             (''reason'', VStr ''System not ready for traffic'')])]
           (publish traffic_switching [(''incidentId'', VStr i)]
              (addTimeline i ''Traffic Switch Agent started'' None
                 (publish agent_start
                    [(''agent'', VStr ''Traffic Switch Agent''), (''incidentId'', VStr i)] w)))))"
  by (simp add: runTrafficSwitchAgent_def executeAgent_def Let_def spread_def)

text \<open>
  C8, as the code has it. When the Disaster Recovery stage has reported the system not ready
  for traffic, the Traffic Switch stage short-circuits: it publishes \<open>agent:start\<close>,
  \<open>traffic:switching\<close> and \<open>agent:complete\<close> and nothing else, no time passes (there is no
  stabilization wait), its result and the state it leaves do not depend on what a health
  check would answer, and the result carries the traffic status \<open>failed\<close> with the reason
  \<open>System not ready for traffic\<close>.
\<close>

theorem trafficSwitch_not_ready:
  assumes "quiet (bus w)"
  shows "AgentResult.success (fst (runTrafficSwitchAgent incId False env w))
    \<and> AgentResult.data (fst (runTrafficSwitchAgent incId False env w)) =
        [(''trafficStatus'', VStr ''failed''), (''reason'', VStr ''System not ready for traffic'')]
    \<and> now (snd (runTrafficSwitchAgent incId False env w)) = now w
    \<and> published w (snd (runTrafficSwitchAgent incId False env w))
        [agent_start, traffic_switching, agent_complete]
    \<and> runTrafficSwitchAgent incId False env w = runTrafficSwitchAgent incId False env' w"
proof -
  have "published w (snd (runTrafficSwitchAgent incId False env w))
          ([] @ [agent_start] @ [traffic_switching] @ [agent_complete])"
    unfolding trafficSwitch_not_ready_eq snd_conv append_assoc [symmetric]
    by (intro published_then_addTimeline published_then_publish published_start)
  then show ?thesis
    by (simp add: trafficSwitch_not_ready_eq)
qed

theorem trafficSwitch_not_ready_witness:
  "quiet (bus world0)
   \<and> now (snd (runTrafficSwitchAgent ''INC-0-ABCDEF'' False env0 world0)) = now world0
   \<and> AgentResult.data (fst (runTrafficSwitchAgent ''INC-0-ABCDEF'' False env0 world0)) =
        [(''trafficStatus'', VStr ''failed''), (''reason'', VStr ''System not ready for traffic'')]"
  using trafficSwitch_not_ready [of world0 "''INC-0-ABCDEF''" env0]
  by (simp add: quiet_def world0_def initial_world_def new_bus_def)

text \<open>
  C8 as stated fails: the traffic status the short-circuit reports is \<open>failed\<close>;
  \<open>rolled_back\<close> is what the stage reports when it did run its final health check and the
  check failed.
\<close>

theorem trafficSwitch_rolled_back_counterexample:
  "get_prop (AgentResult.data (fst (runTrafficSwitchAgent ''INC-0-ABCDEF'' False env0 world0)))
     ''trafficStatus'' \<noteq> VStr ''rolled_back''"
  by (simp add: trafficSwitch_not_ready_eq get_prop_def)

section \<open>executeAgent\<close>

lemma started_simps [simp]:
  "now (started name i w) = now w"
  "DAList.lookup (incidents (started name i w)) i \<noteq> None \<longleftrightarrow> DAList.lookup (incidents w) i \<noteq> None"
  by (simp_all add: started_def lookup_addTimeline)

lemma published_started: "published w (started name i w) [agent_start]"
  unfolding started_def
  using published_then_addTimeline [OF published_publish] .

lemma executeAgent_Inr:
  assumes "fst (fn (started name i w)) = Inr d"
  shows "fst (executeAgent name i fn w) =
           \<lparr> agent = name, AgentResult.success = True, AgentResult.data = d,
             AgentResult.duration = now (snd (fn (started name i w))) - now w \<rparr>"
    and "snd (executeAgent name i fn w) =
           addTimeline i (name @ '' completed'')
             (Some (spread [(''duration'', vnat (now (snd (fn (started name i w))) - now w))] d))
             (publish agent_complete
                [(''agent'', VStr name), (''incidentId'', VStr i), (''success'', VBool True),
                 (''duration'', vnat (now (snd (fn (started name i w))) - now w)),
                 (''data'', VObj d)]
                (snd (fn (started name i w))))"
  using assms
  by (simp_all add: executeAgent_def Let_def split_def started_def split: sum.splits)

lemma published_executeAgent:
  assumes "fst (fn (started name i w)) = Inr d"
    and "published (started name i w) (snd (fn (started name i w))) tys"
  shows "published w (snd (executeAgent name i fn w)) ([agent_start] @ tys @ [agent_complete])"
  unfolding executeAgent_Inr(2) [where fn = fn and name = name and i = i and w = w and d = d, OF assms(1)]
    append_assoc [symmetric]
  by (intro published_then_addTimeline published_then_publish
      published_trans [OF published_started assms(2)])

lemma last_event_executeAgent:
  assumes "fst (fn (started name i w)) = Inr d"
  shows "type (last (eventHistory (bus (snd (executeAgent name i fn w))))) = agent_complete"
    and "get_prop (BusEvent.data (last (eventHistory (bus (snd (executeAgent name i fn w)))))) ''agent''
           = VStr name"
  unfolding executeAgent_Inr(2) [where fn = fn and name = name and i = i and w = w and d = d, OF assms]
  by (simp_all add: last_event_publish get_prop_def)

section \<open>Reporter\<close>

lemma reporter_incident:
  assumes "DAList.lookup (incidents w) i = Some inc"
  shows "\<exists>inc' rep. DAList.lookup (incidents (snd (runReporterAgent i w))) i = Some inc'
           \<and> Incident.status inc' = resolved
           \<and> resolvedAt inc' = Some (now w + 1000)
           \<and> report inc' = Some rep
           \<and> incidentId rep = i
           \<and> attemptedActions inc' = attemptedActions inc"
    and "AgentResult.success (fst (runReporterAgent i w))"
  using assms
  by (simp_all add: runReporterAgent_def reporter_body_def executeAgent_def Let_def getIncident_def
      lookup_addTimeline lookup_setReport lookup_updateStatus)

lemma reporter_published:
  assumes "DAList.lookup (incidents w) i = Some inc"
  shows "published w (snd (runReporterAgent i w))
           [agent_start, report_generated, incident_update, incident_resolved, agent_complete]"
    and "type (last (eventHistory (bus (snd (runReporterAgent i w))))) = agent_complete"
    and "get_prop (BusEvent.data (last (eventHistory (bus (snd (runReporterAgent i w)))))) ''agent''
           = VStr ''Incident Reporter''"
proof -
  let ?w2 = "started ''Incident Reporter'' i w"
  obtain inc2 where inc2: "DAList.lookup (incidents ?w2) i = Some inc2"
    using assms started_simps(2) [of "''Incident Reporter''" i w] by auto
  define fn where "fn = reporter_body i"
  have fn: "runReporterAgent i = executeAgent ''Incident Reporter'' i fn"
    by (simp add: runReporterAgent_def fn_def)
  obtain d rep d6 where run: "fn ?w2 = (Inr d, publish incident_resolved d6
                     (updateStatus i resolved (setReport i rep (sleep 1000 ?w2))))"
    using inc2 by (simp add: fn_def reporter_body_def getIncident_def Let_def)
  have 1: "fst (fn ?w2) = Inr d"
    using run by simp
  have "published ?w2 (snd (fn ?w2)) ((([] @ [report_generated]) @ [incident_update]) @ [incident_resolved])"
    unfolding run snd_conv
    by (intro published_then_publish published_then_updateStatus published_then_setReport
        published_then_sleep published_start)
       (simp_all add: lookup_setReport inc2)
  then have 2: "published ?w2 (snd (fn ?w2)) [report_generated, incident_update, incident_resolved]"
    by simp
  show "published w (snd (runReporterAgent i w))
           [agent_start, report_generated, incident_update, incident_resolved, agent_complete]"
    unfolding fn using published_executeAgent [where fn = fn, OF 1 2] by simp
  show "type (last (eventHistory (bus (snd (runReporterAgent i w))))) = agent_complete"
    unfolding fn using last_event_executeAgent(1) [where fn = fn, OF 1] .
  show "get_prop (BusEvent.data (last (eventHistory (bus (snd (runReporterAgent i w)))))) ''agent''
           = VStr ''Incident Reporter''"
    unfolding fn using last_event_executeAgent(2) [where fn = fn, OF 1] .
qed

section \<open>The pipeline\<close>

lemma pipeline_run:
  fixes a s env w
  defines "i \<equiv> generateId (now w) (randomSuffix env)"
  defines "w1 \<equiv> snd (createIncident (AnomalyReport.failureType a) (AnomalyReport.severity a)
                       (AnomalyReport.affectedServices a) (randomSuffix env)
                       (w \<lparr> pipelineRunning := True \<rparr>))"
  shows "\<exists>mid pre.
           pipeline_states a s env w =
             w \<lparr> pipelineRunning := True \<rparr> # w1 # mid @ [snd (runReporterAgent i pre)]
           \<and> (\<forall>v \<in> set mid. stage_frame i w1 v)
           \<and> pre \<in> set mid
           \<and> runPipeline a s env w =
               (snd (runReporterAgent i pre)) \<lparr> consecutiveUnhealthy := 0, pipelineRunning := False \<rparr>"
proof -
  define w2 where "w2 = snd (runObservabilityAgent i a s w1)"
  define w3 where "w3 = snd (runAnalyzerAgent i a s w2)"
  define fs where "fs = (case get_prop (AgentResult.data (fst (runAnalyzerAgent i a s w2))) ''fixStrategy'' of
                           VStr x \<Rightarrow> if x = [] then ''restart_service'' else x
                         | _ \<Rightarrow> ''restart_service'')"
  define w4 where "w4 = snd (runHealingAgent i fs env w3)"
  define hs where "hs = truthy (get_prop (AgentResult.data (fst (runHealingAgent i fs env w3))) ''success'')"
  define w5 where "w5 = snd (runRecoveryDecisionAgent i hs w4)"
  define w5a where "w5a = updateStatus i escalated w5"
  define w5b where "w5b = snd (runDisasterRecoveryAgent i env w5a)"
  define rt where "rt = truthy (get_prop (AgentResult.data (fst (runDisasterRecoveryAgent i env w5a))) ''readyForTraffic'')"
  define w5c where "w5c = snd (runTrafficSwitchAgent i rt env w5b)"
  have states: "pipeline_states a s env w =
      w \<lparr> pipelineRunning := True \<rparr> # w1 #
        (if hs then [w2, w3, w4, w5] @ [snd (runReporterAgent i w5)]
         else [w2, w3, w4, w5, w5a, w5b, w5c] @ [snd (runReporterAgent i w5c)])"
    unfolding pipeline_states_def w1_def w2_def w3_def fs_def w4_def hs_def w5_def w5a_def
      w5b_def rt_def w5c_def i_def
    by (simp add: Let_def split_def decision_data get_prop_def)
  have run: "runPipeline a s env w =
      (if hs then snd (runReporterAgent i w5) else snd (runReporterAgent i w5c))
        \<lparr> consecutiveUnhealthy := 0, pipelineRunning := False \<rparr>"
    unfolding runPipeline_def w1_def w2_def w3_def fs_def w4_def hs_def w5_def w5a_def
      w5b_def rt_def w5c_def i_def
    by (simp add: Let_def split_def decision_data get_prop_def)
  have f2: "stage_frame i w1 w2"
    unfolding w2_def by (rule frame_observability)
  have f3: "stage_frame i w1 w3"
    unfolding w3_def using f2 frame_analyzer by (rule frame_trans)
  have f4: "stage_frame i w1 w4"
    unfolding w4_def using f3 frame_healing by (rule frame_trans)
  have f5: "stage_frame i w1 w5"
    unfolding w5_def using f4 frame_decision by (rule frame_trans)
  have f5a: "stage_frame i w1 w5a"
    unfolding w5a_def using f5 frame_updateStatus by (rule frame_trans)
  have f5b: "stage_frame i w1 w5b"
    unfolding w5b_def using f5a frame_dr by (rule frame_trans)
  have f5c: "stage_frame i w1 w5c"
    unfolding w5c_def using f5b frame_traffic by (rule frame_trans)
  show ?thesis
  proof (cases hs)
    case True
    have "pipeline_states a s env w =
            w \<lparr> pipelineRunning := True \<rparr> # w1 # [w2, w3, w4, w5] @ [snd (runReporterAgent i w5)]"
      using states True by simp
    moreover have "\<forall>v \<in> set [w2, w3, w4, w5]. stage_frame i w1 v"
      using f2 f3 f4 f5 by simp
    moreover have "w5 \<in> set [w2, w3, w4, w5]" by simp
    moreover have "runPipeline a s env w =
        (snd (runReporterAgent i w5)) \<lparr> consecutiveUnhealthy := 0, pipelineRunning := False \<rparr>"
      using run True by simp
    ultimately show ?thesis by blast
  next
    case False
    have "pipeline_states a s env w =
            w \<lparr> pipelineRunning := True \<rparr> # w1 # [w2, w3, w4, w5, w5a, w5b, w5c]
              @ [snd (runReporterAgent i w5c)]"
      using states False by simp
    moreover have "\<forall>v \<in> set [w2, w3, w4, w5, w5a, w5b, w5c]. stage_frame i w1 v"
      using f2 f3 f4 f5 f5a f5b f5c by simp
    moreover have "w5c \<in> set [w2, w3, w4, w5, w5a, w5b, w5c]" by simp
    moreover have "runPipeline a s env w =
        (snd (runReporterAgent i w5c)) \<lparr> consecutiveUnhealthy := 0, pipelineRunning := False \<rparr>"
      using run False by simp
    ultimately show ?thesis by blast
  qed
qed

section \<open>Polling\<close>

lemma detectAnomalies_cong:
  "demoApp s = demoApp s' \<Longrightarrow> metrics s = metrics s' \<Longrightarrow> detectAnomalies s = detectAnomalies s'"
  by (simp add: detectAnomalies_def)

lemma getHealthSnapshot_anomaly:
  "detectAnomalies (fst (getHealthSnapshot (probes p) w)) = poll_anomaly p"
  unfolding poll_anomaly_def
  by (rule detectAnomalies_cong) (simp_all add: getHealthSnapshot_def Let_def)

lemma getHealthSnapshot_fields [simp]:
  "incidents (snd (getHealthSnapshot pr w)) = incidents w"
  "running (snd (getHealthSnapshot pr w)) = running w"
  "pollTimer (snd (getHealthSnapshot pr w)) = pollTimer w"
  "pipelineRunning (snd (getHealthSnapshot pr w)) = pipelineRunning w"
  "consecutiveHealthy (snd (getHealthSnapshot pr w)) = consecutiveHealthy w"
  "consecutiveUnhealthy (snd (getHealthSnapshot pr w)) = consecutiveUnhealthy w"
  "listeners (bus (snd (getHealthSnapshot pr w))) = listeners (bus w)"
  "now (snd (getHealthSnapshot pr w)) = now w + probesElapsed pr"
  by (simp_all add: getHealthSnapshot_def Let_def publish_def)

lemma publish_fields [simp]:
  "running (publish ty d w) = running w"
  "pollTimer (publish ty d w) = pollTimer w"
  "pipelineRunning (publish ty d w) = pipelineRunning w"
  "lastHealthSnapshot (publish ty d w) = lastHealthSnapshot w"
  "consecutiveHealthy (publish ty d w) = consecutiveHealthy w"
  "consecutiveUnhealthy (publish ty d w) = consecutiveUnhealthy w"
  "listeners (bus (publish ty d w)) = listeners (bus w)"
  by (simp_all add: publish_def)

lemma getActiveIncident_cong:
  "incidents w' = incidents w \<Longrightarrow> getActiveIncident w' = getActiveIncident w"
  by (simp add: getActiveIncident_def)

text \<open>What a tick does, by the classification of its snapshot.\<close>

lemma monitoringLoop_running: "pipelineRunning w \<Longrightarrow> monitoringLoop p w = w"
  by (simp add: monitoringLoop_def)

lemma monitoringLoop_healthy:
  assumes "\<not> pipelineRunning w" and "poll_anomaly p = None"
  shows "incidents (monitoringLoop p w) = incidents w"
    and "consecutiveUnhealthy (monitoringLoop p w) = 0"
    and "consecutiveHealthy (monitoringLoop p w) = consecutiveHealthy w + 1"
    and "\<not> pipelineRunning (monitoringLoop p w)"
    and "listeners (bus (monitoringLoop p w)) = listeners (bus w)"
    and "now (monitoringLoop p w) = now w + probesElapsed (probes p)"
  using assms
  by (simp_all add: monitoringLoop_def Let_def split_def getHealthSnapshot_anomaly)

lemma monitoringLoop_no_pipeline:
  assumes "\<not> pipelineRunning w" and "poll_anomaly p = Some a"
    and "consecutiveUnhealthy w = 0 \<or> getActiveIncident w \<noteq> None"
  shows "incidents (monitoringLoop p w) = incidents w"
    and "consecutiveUnhealthy (monitoringLoop p w) = consecutiveUnhealthy w + 1"
    and "consecutiveHealthy (monitoringLoop p w) = 0"
    and "\<not> pipelineRunning (monitoringLoop p w)"
    and "listeners (bus (monitoringLoop p w)) = listeners (bus w)"
    and "now (monitoringLoop p w) = now w + probesElapsed (probes p)"
  using assms
  by (auto simp: monitoringLoop_def Let_def split_def getHealthSnapshot_anomaly
      getActiveIncident_def split: list.splits)

lemma monitoringLoop_pipeline:
  assumes "\<not> pipelineRunning w" and "poll_anomaly p = Some a"
    and "1 \<le> consecutiveUnhealthy w" and "getActiveIncident w = None"
  shows "\<exists>s w6. monitoringLoop p w = runPipeline a s (pipelineEnv p) w6
           \<and> incidents w6 = incidents w
           \<and> listeners (bus w6) = listeners (bus w)
           \<and> running w6 = running w
           \<and> now w6 = now w + probesElapsed (probes p)"
proof -
  define s where "s = fst (getHealthSnapshot (probes p) w)"
  define w5 where "w5 =
    (publish health_check
       [(''healthy'', VBool (DemoAppHealth.healthy (demoApp s))),
        (''statusCode'', VNum (statusCode (demoApp s))),
        (''responseTimeMs'', VNum (responseTimeMs (demoApp s))),
        (''errorRate'', VNum (errorRate (metrics s))),
        (''memoryMB'', VNum (memoryUsageMB (metrics s))),
        (''timestamp'', VIso (HealthSnapshot.timestamp s))]
       ((snd (getHealthSnapshot (probes p) w)) \<lparr> lastHealthSnapshot := Some s \<rparr>))
      \<lparr> consecutiveUnhealthy := consecutiveUnhealthy w + 1, consecutiveHealthy := 0 \<rparr>"
  define w6 where "w6 =
    publish anomaly_detected
      [(''failureType'', VStr (failureType_str (AnomalyReport.failureType a))),
       (''severity'', VStr (severity_str (AnomalyReport.severity a))),
       (''description'', VTpl (description a))] w5"
  have inc5: "incidents w5 = incidents w"
    by (simp add: w5_def)
  have ga: "getActiveIncident w5 = None"
    using assms(4) getActiveIncident_cong [OF inc5] by simp
  have "monitoringLoop p w = runPipeline a s (pipelineEnv p) w6"
    using assms(1,2,3) ga getHealthSnapshot_anomaly [of p w]
    by (simp add: monitoringLoop_def Let_def split_def w6_def w5_def s_def)
  moreover have "incidents w6 = incidents w" "listeners (bus w6) = listeners (bus w)"
    "running w6 = running w" "now w6 = now w + probesElapsed (probes p)"
    by (simp_all add: w6_def w5_def)
  ultimately show ?thesis by blast
qed

section \<open>At most one active incident\<close>

lemma at_most_one_active_cong:
  "incidents w' = incidents w \<Longrightarrow> at_most_one_active w' = at_most_one_active w"
  by (simp add: at_most_one_active_def active_incidents_def)

lemma filter_active_inactive:
  "(\<forall>(j, inc) \<in> set xs. \<not> active inc) \<Longrightarrow> filter active (map snd xs) = []"
  by (induction xs) auto

lemma filter_active_le1:
  "distinct (map fst xs) \<Longrightarrow> (\<forall>(j, inc) \<in> set xs. j \<noteq> i \<longrightarrow> \<not> active inc)
     \<Longrightarrow> length (filter active (map snd xs)) \<le> 1"
proof (induction xs)
  case Nil
  then show ?case by simp
next
  case (Cons x xs)
  obtain k v where x: "x = (k, v)" by (cases x)
  show ?case
  proof (cases "k = i")
    case True
    have "\<forall>(j, inc) \<in> set xs. \<not> active inc"
      using Cons.prems x True by force
    then have "filter active (map snd xs) = []"
      by (rule filter_active_inactive)
    then show ?thesis by simp
  next
    case False
    then have "\<not> active v"
      using Cons.prems(2) x by simp
    moreover have "length (filter active (map snd xs)) \<le> 1"
      using Cons.IH Cons.prems by simp
    ultimately show ?thesis
      using x by simp
  qed
qed

lemma others_inactive_amo: "others_inactive i w \<Longrightarrow> at_most_one_active w"
proof -
  assume a: "others_inactive i w"
  have "\<forall>(j, inc) \<in> set (DAList.impl_of (incidents w)). j \<noteq> i \<longrightarrow> \<not> active inc"
    using a by (auto simp: others_inactive_def DAList.lookup.rep_eq)
  then show ?thesis
    unfolding at_most_one_active_def active_incidents_def
    using filter_active_le1 [of "DAList.impl_of (incidents w)" i] by simp
qed

lemma others_inactive_frame:
  "others_inactive i w \<Longrightarrow> stage_frame i w w' \<Longrightarrow> others_inactive i w'"
  by (simp add: others_inactive_def stage_frame_def)

lemma no_active_all_inactive:
  assumes "getActiveIncident w = None"
  shows "DAList.lookup (incidents w) j = Some inc \<Longrightarrow> \<not> active inc"
proof -
  assume l: "DAList.lookup (incidents w) j = Some inc"
  have "sort_key (\<lambda>i. - int (Incident.timestamp i))
          (filter active (map snd (DAList.impl_of (incidents w)))) = []"
    using assms by (simp add: getActiveIncident_def split: list.splits)
  then have "filter active (map snd (DAList.impl_of (incidents w))) = []"
    by (metis length_0_conv length_sort)
  moreover have "inc \<in> set (map snd (DAList.impl_of (incidents w)))"
    using l by (force simp: DAList.lookup.rep_eq dest: map_of_SomeD)
  ultimately show ?thesis
    by (metis filter_empty_conv)
qed

text \<open>
  \<open>getActiveIncident\<close> finds nothing exactly when the store holds no active incident, that
  is, when every incident in it is \<open>resolved\<close> or \<open>failed\<close>.
\<close>

lemma getActiveIncident_None_iff: "(getActiveIncident w = None) = (active_incidents w = [])"
proof -
  have "(sort_key (\<lambda>i. - int (Incident.timestamp i)) xs = []) = (xs = [])" for xs
    by (metis length_0_conv length_sort)
  from this [of "filter active (map snd (DAList.impl_of (incidents w)))"] show ?thesis
    by (auto simp: getActiveIncident_def active_incidents_def split: list.splits)
qed

lemma active_incidents_Nil_iff:
  "(active_incidents w = []) =
     (\<forall>j inc. DAList.lookup (incidents w) j = Some inc \<longrightarrow> \<not> active inc)"
proof
  assume "active_incidents w = []"
  then have "getActiveIncident w = None"
    by (simp add: getActiveIncident_None_iff)
  then show "\<forall>j inc. DAList.lookup (incidents w) j = Some inc \<longrightarrow> \<not> active inc"
    using no_active_all_inactive by blast
next
  assume a: "\<forall>j inc. DAList.lookup (incidents w) j = Some inc \<longrightarrow> \<not> active inc"
  have "\<forall>(j, inc) \<in> set (DAList.impl_of (incidents w)). \<not> active inc"
    using a by (auto simp: DAList.lookup.rep_eq)
  then show "active_incidents w = []"
    unfolding active_incidents_def by (rule filter_active_inactive)
qed

lemma createIncident_others:
  assumes "\<And>j inc. DAList.lookup (incidents w) j = Some inc \<Longrightarrow> \<not> active inc"
  shows "others_inactive (generateId (now w) sfx) (snd (createIncident ft sev svc sfx w))"
  using assms by (simp add: others_inactive_def createIncident_lookup)

lemma pipeline_amo:
  assumes "getActiveIncident w = None"
  shows "\<forall>v \<in> set (pipeline_states a s env w). at_most_one_active v"
    and "at_most_one_active (runPipeline a s env w)"
proof -
  let ?i = "generateId (now w) (randomSuffix env)"
  let ?w0 = "w \<lparr> pipelineRunning := True \<rparr>"
  let ?w1 = "snd (createIncident (AnomalyReport.failureType a) (AnomalyReport.severity a)
                       (AnomalyReport.affectedServices a) (randomSuffix env) ?w0)"
  obtain mid pre where
    states: "pipeline_states a s env w = ?w0 # ?w1 # mid @ [snd (runReporterAgent ?i pre)]"
    and mid: "\<forall>v \<in> set mid. stage_frame ?i ?w1 v"
    and pre: "pre \<in> set mid"
    and run: "runPipeline a s env w =
               (snd (runReporterAgent ?i pre)) \<lparr> consecutiveUnhealthy := 0, pipelineRunning := False \<rparr>"
    using pipeline_run [of a s env w] by blast
  have inactive: "\<And>j inc. DAList.lookup (incidents ?w0) j = Some inc \<Longrightarrow> \<not> active inc"
    using no_active_all_inactive [OF assms] by simp
  have 0: "at_most_one_active ?w0"
    using inactive others_inactive_amo [of ?i ?w0] by (simp add: others_inactive_def)
  have o1: "others_inactive ?i ?w1"
    using createIncident_others [of ?w0, OF inactive] by simp
  have omid: "\<forall>v \<in> set mid. others_inactive ?i v"
    using mid o1 others_inactive_frame by blast
  have "stage_frame ?i ?w1 (snd (runReporterAgent ?i pre))"
    using mid pre frame_reporter frame_trans by blast
  then have olast: "others_inactive ?i (snd (runReporterAgent ?i pre))"
    using o1 others_inactive_frame by blast
  show "\<forall>v \<in> set (pipeline_states a s env w). at_most_one_active v"
    unfolding states using 0 o1 omid olast others_inactive_amo by auto
  have "at_most_one_active (snd (runReporterAgent ?i pre))"
    using olast by (rule others_inactive_amo)
  then show "at_most_one_active (runPipeline a s env w)"
    unfolding run by (simp add: at_most_one_active_def active_incidents_def)
qed

lemma monitoringLoop_cases:
  "incidents (monitoringLoop p w) = incidents w
   \<or> (\<exists>a s w6. getActiveIncident w6 = None \<and> incidents w6 = incidents w
        \<and> monitoringLoop p w = runPipeline a s (pipelineEnv p) w6)"
proof (cases "pipelineRunning w")
  case True
  then show ?thesis by (simp add: monitoringLoop_running)
next
  case False
  show ?thesis
  proof (cases "poll_anomaly p")
    case None
    then show ?thesis using False monitoringLoop_healthy(1) by simp
  next
    case (Some a)
    show ?thesis
    proof (cases "consecutiveUnhealthy w = 0 \<or> getActiveIncident w \<noteq> None")
      case True
      then show ?thesis using False Some monitoringLoop_no_pipeline(1) by blast
    next
      case no: False
      then have cu: "1 \<le> consecutiveUnhealthy w" and ga: "getActiveIncident w = None"
        by simp_all
      obtain s w6 where ml: "monitoringLoop p w = runPipeline a s (pipelineEnv p) w6"
        and inc6: "incidents w6 = incidents w"
        using monitoringLoop_pipeline [OF False Some cu ga] by blast
      have "getActiveIncident w6 = None"
        using ga getActiveIncident_cong [OF inc6] by simp
      then show ?thesis
        using ml inc6 by blast
    qed
  qed
qed

lemma monitoringLoop_amo:
  assumes "at_most_one_active w"
  shows "at_most_one_active (monitoringLoop p w)"
proof -
  consider (same) "incidents (monitoringLoop p w) = incidents w"
    | (run) a s w6 where "getActiveIncident w6 = None"
        "monitoringLoop p w = runPipeline a s (pipelineEnv p) w6"
    using monitoringLoop_cases [of p w] by blast
  then show ?thesis
  proof cases
    case same
    show ?thesis
      using assms at_most_one_active_cong [OF same] by simp
  next
    case run
    then show ?thesis
      using pipeline_amo(2) by simp
  qed
qed

lemma run_polls_amo: "at_most_one_active w \<Longrightarrow> at_most_one_active (run_polls ps w)"
  by (induction ps arbitrary: w) (simp_all add: monitoringLoop_amo)

text \<open>
  C4. For every sequence of ticks, whatever their snapshots and whatever the demo application
  answers to the pipelines they start, from a state with a quiet bus and at most one active
  incident: the store holds at most one active incident after each tick of the sequence.
  Within a tick, either the store is not touched or the tick runs the pipeline from a state
  with the same store in which \<open>getActiveIncident\<close> found no active incident, and then every
  state the pipeline passes through has at most one active incident.
\<close>

theorem single_active_incident:
  assumes "quiet (bus w)" and "at_most_one_active w"
  shows "at_most_one_active (run_polls ps w)
    \<and> (incidents (monitoringLoop p w) = incidents w
       \<or> (\<exists>a s w6. getActiveIncident w6 = None \<and> incidents w6 = incidents w
            \<and> monitoringLoop p w = runPipeline a s (pipelineEnv p) w6
            \<and> (\<forall>v \<in> set (pipeline_states a s (pipelineEnv p) w6). at_most_one_active v)))"
proof -
  have "at_most_one_active (run_polls ps w)"
    using assms(2) by (rule run_polls_amo)
  moreover have "incidents (monitoringLoop p w) = incidents w
       \<or> (\<exists>a s w6. getActiveIncident w6 = None \<and> incidents w6 = incidents w
            \<and> monitoringLoop p w = runPipeline a s (pipelineEnv p) w6
            \<and> (\<forall>v \<in> set (pipeline_states a s (pipelineEnv p) w6). at_most_one_active v))"
  proof -
    consider (same) "incidents (monitoringLoop p w) = incidents w"
      | (run) a s w6 where "getActiveIncident w6 = None" "incidents w6 = incidents w"
          "monitoringLoop p w = runPipeline a s (pipelineEnv p) w6"
      using monitoringLoop_cases [of p w] by blast
    then show ?thesis
    proof cases
      case same
      then show ?thesis by simp
    next
      case run
      have "\<forall>v \<in> set (pipeline_states a s (pipelineEnv p) w6). at_most_one_active v"
        using run(1) by (rule pipeline_amo(1))
      then show ?thesis
        using run by blast
    qed
  qed
  ultimately show ?thesis by simp
qed

theorem single_active_incident_witness:
  "quiet (bus world0)
   \<and> at_most_one_active world0
   \<and> at_most_one_active (run_polls [poll_down, poll_down, poll_up] world0)"
proof -
  have q: "quiet (bus world0)"
    by (simp add: quiet_def world0_def initial_world_def new_bus_def)
  have a: "at_most_one_active world0"
    by (simp add: at_most_one_active_def active_incidents_def world0_def incident0_def
        active_def DAList.update.rep_eq DAList.empty.rep_eq)
  show ?thesis
    using single_active_incident [OF q a, of "[poll_down, poll_down, poll_up]" poll_down] q a
    by simp
qed

section \<open>What a pipeline run leaves\<close>

lemma frame_creation:
  "stage_frame i w w' \<Longrightarrow>
     map_option creation (DAList.lookup (incidents w') i)
       = map_option creation (DAList.lookup (incidents w) i)"
  by (simp add: stage_frame_def)

lemma frame_others:
  "stage_frame i w w' \<Longrightarrow> j \<noteq> i \<Longrightarrow>
     DAList.lookup (incidents w') j = DAList.lookup (incidents w) j"
  by (simp add: stage_frame_def)

lemma frame_keys:
  "stage_frame i w w' \<Longrightarrow>
     map fst (DAList.impl_of (incidents w')) = map fst (DAList.impl_of (incidents w))"
  by (simp add: stage_frame_def)

lemma frame_fields:
  assumes "stage_frame i w w'"
  shows "listeners (bus w') = listeners (bus w)" and "running w' = running w"
    and "consecutiveHealthy w' = consecutiveHealthy w"
    and "consecutiveUnhealthy w' = consecutiveUnhealthy w"
    and "pipelineRunning w' = pipelineRunning w"
  using assms by (simp_all add: stage_frame_def)

lemma pipeline_result:
  fixes a s env w
  defines "i \<equiv> generateId (now w) (randomSuffix env)"
  shows "\<exists>pre inc rep.
      DAList.lookup (incidents pre) i \<noteq> None
      \<and> runPipeline a s env w =
          (snd (runReporterAgent i pre)) \<lparr> consecutiveUnhealthy := 0, pipelineRunning := False \<rparr>
      \<and> (\<forall>j. j \<noteq> i \<longrightarrow> DAList.lookup (incidents (runPipeline a s env w)) j = DAList.lookup (incidents w) j)
      \<and> DAList.lookup (incidents (runPipeline a s env w)) i = Some inc
      \<and> creation inc = (i, now w, AnomalyReport.failureType a, AnomalyReport.severity a,
                          AnomalyReport.affectedServices a)
      \<and> Incident.status inc = resolved
      \<and> report inc = Some rep
      \<and> incidentId rep = i
      \<and> map fst (DAList.impl_of (incidents (runPipeline a s env w))) =
          (if DAList.lookup (incidents w) i = None
           then map fst (DAList.impl_of (incidents w)) @ [i]
           else map fst (DAList.impl_of (incidents w)))
      \<and> listeners (bus (runPipeline a s env w)) = listeners (bus w)
      \<and> running (runPipeline a s env w) = running w
      \<and> consecutiveHealthy (runPipeline a s env w) = consecutiveHealthy w"
proof -
  let ?w0 = "w \<lparr> pipelineRunning := True \<rparr>"
  let ?w1 = "snd (createIncident (AnomalyReport.failureType a) (AnomalyReport.severity a)
                       (AnomalyReport.affectedServices a) (randomSuffix env) ?w0)"
  obtain mid pre where
    mid: "\<forall>v \<in> set mid. stage_frame i ?w1 v"
    and pre: "pre \<in> set mid"
    and run: "runPipeline a s env w =
               (snd (runReporterAgent i pre)) \<lparr> consecutiveUnhealthy := 0, pipelineRunning := False \<rparr>"
    using pipeline_run [of a s env w] unfolding i_def by blast
  let ?end = "snd (runReporterAgent i pre)"
  have fpre: "stage_frame i ?w1 pre"
    using mid pre by blast
  have fend: "stage_frame i ?w1 ?end"
    using fpre frame_reporter by (rule frame_trans)
  have l1: "DAList.lookup (incidents ?w1) j =
      (if j = i then DAList.lookup (incidents ?w1) i else DAList.lookup (incidents w) j)" for j
    by (simp add: createIncident_lookup i_def)
  have c1: "map_option creation (DAList.lookup (incidents ?w1) i) =
      Some (i, now w, AnomalyReport.failureType a, AnomalyReport.severity a,
            AnomalyReport.affectedServices a)"
    by (simp add: createIncident_lookup i_def creation_def)
  have k1: "map fst (DAList.impl_of (incidents ?w1)) =
      (if DAList.lookup (incidents w) i = None
       then map fst (DAList.impl_of (incidents w)) @ [i]
       else map fst (DAList.impl_of (incidents w)))"
    using createIncident_keys [of "AnomalyReport.failureType a" "AnomalyReport.severity a"
        "AnomalyReport.affectedServices a" "randomSuffix env" ?w0]
    by (simp add: i_def)
  have "map_option creation (DAList.lookup (incidents pre) i) =
      Some (i, now w, AnomalyReport.failureType a, AnomalyReport.severity a,
            AnomalyReport.affectedServices a)"
    using frame_creation [OF fpre] c1 by simp
  then obtain incp where incp: "DAList.lookup (incidents pre) i = Some incp"
    by blast
  obtain inc rep where inc: "DAList.lookup (incidents ?end) i = Some inc"
    "Incident.status inc = resolved" "report inc = Some rep" "incidentId rep = i"
    using reporter_incident(1) [OF incp] by blast
  have "map_option creation (DAList.lookup (incidents ?end) i) =
      Some (i, now w, AnomalyReport.failureType a, AnomalyReport.severity a,
            AnomalyReport.affectedServices a)"
    using frame_creation [OF fend] c1 by simp
  then have cr: "creation inc = (i, now w, AnomalyReport.failureType a, AnomalyReport.severity a,
            AnomalyReport.affectedServices a)"
    using inc(1) by simp
  have others: "\<forall>j. j \<noteq> i \<longrightarrow> DAList.lookup (incidents ?end) j = DAList.lookup (incidents w) j"
    using frame_others [OF fend] l1 by simp
  have keys: "map fst (DAList.impl_of (incidents ?end)) =
      (if DAList.lookup (incidents w) i = None
       then map fst (DAList.impl_of (incidents w)) @ [i]
       else map fst (DAList.impl_of (incidents w)))"
    using frame_keys [OF fend] k1 by simp
  have fields: "listeners (bus ?end) = listeners (bus w)" "running ?end = running w"
    "consecutiveHealthy ?end = consecutiveHealthy w"
    using frame_fields [OF fend] by simp_all
  show ?thesis
    unfolding run
    by (intro exI [of _ pre] exI [of _ inc] exI [of _ rep])
       (simp add: incp inc cr others keys fields)
qed

lemma monitoringLoop_listeners: "listeners (bus (monitoringLoop p w)) = listeners (bus w)"
proof (cases "pipelineRunning w")
  case True
  then show ?thesis by (simp add: monitoringLoop_running)
next
  case False
  show ?thesis
  proof (cases "poll_anomaly p")
    case None
    then show ?thesis using False by (rule monitoringLoop_healthy(5) [rotated])
  next
    case (Some a)
    show ?thesis
    proof (cases "consecutiveUnhealthy w = 0 \<or> getActiveIncident w \<noteq> None")
      case True
      show ?thesis using False Some True by (rule monitoringLoop_no_pipeline(5))
    next
      case no: False
      then have cu: "1 \<le> consecutiveUnhealthy w" and ga: "getActiveIncident w = None"
        by simp_all
      obtain s w6 where ml: "monitoringLoop p w = runPipeline a s (pipelineEnv p) w6"
        and l6: "listeners (bus w6) = listeners (bus w)"
        using monitoringLoop_pipeline [OF False Some cu ga] by blast
      have "listeners (bus (runPipeline a s (pipelineEnv p) w6)) = listeners (bus w6)"
        using pipeline_result [where a = a and s = s and env = "pipelineEnv p" and w = w6]
        by blast
      then show ?thesis
        using ml l6 by simp
    qed
  qed
qed

text \<open>A quiet bus stays quiet: no tick changes the subscribers.\<close>

lemma run_polls_quiet: "quiet (bus (run_polls ps w)) = quiet (bus w)"
  by (induction ps arbitrary: w) (simp_all add: quiet_def monitoringLoop_listeners)

text \<open>
  C7. For every state with a quiet bus: for every incident present in the store, the
  Reporter stage succeeds, stores one report on the incident (it publishes exactly one
  \<open>report:generated\<close>), and leaves the incident \<open>resolved\<close>, stamped one second after the stage
  began. And every run of \<open>runPipeline\<close>, whatever the demo application answers (so on the
  self-heal branch and on the disaster recovery branch, with the recovery stages succeeding
  or failing), ends with the Reporter stage run on its incident: the last event on the bus
  is the \<open>agent:complete\<close> of the Incident Reporter, and the incident is \<open>resolved\<close> and carries
  its report.
\<close>

theorem reporter_always_resolves:
  assumes "quiet (bus w)"
  shows "(\<forall>inc. DAList.lookup (incidents w) i = Some inc \<longrightarrow>
            AgentResult.success (fst (runReporterAgent i w))
            \<and> (\<exists>inc' rep. DAList.lookup (incidents (snd (runReporterAgent i w))) i = Some inc'
                  \<and> Incident.status inc' = resolved
                  \<and> resolvedAt inc' = Some (now w + 1000)
                  \<and> report inc' = Some rep
                  \<and> incidentId rep = i)
            \<and> published w (snd (runReporterAgent i w))
                 [agent_start, report_generated, incident_update, incident_resolved, agent_complete])
    \<and> (\<exists>pre inc rep.
          DAList.lookup (incidents pre) (generateId (now w) (randomSuffix env)) \<noteq> None
          \<and> runPipeline a s env w =
              (snd (runReporterAgent (generateId (now w) (randomSuffix env)) pre))
                \<lparr> consecutiveUnhealthy := 0, pipelineRunning := False \<rparr>
          \<and> DAList.lookup (incidents (runPipeline a s env w)) (generateId (now w) (randomSuffix env))
              = Some inc
          \<and> Incident.status inc = resolved
          \<and> report inc = Some rep
          \<and> incidentId rep = generateId (now w) (randomSuffix env)
          \<and> type (last (eventHistory (bus (runPipeline a s env w)))) = agent_complete
          \<and> get_prop (BusEvent.data (last (eventHistory (bus (runPipeline a s env w))))) ''agent''
              = VStr ''Incident Reporter'')"
proof (intro conjI allI impI)
  fix inc
  assume l: "DAList.lookup (incidents w) i = Some inc"
  show "AgentResult.success (fst (runReporterAgent i w))"
    using l by (rule reporter_incident(2))
  show "\<exists>inc' rep. DAList.lookup (incidents (snd (runReporterAgent i w))) i = Some inc'
                  \<and> Incident.status inc' = resolved
                  \<and> resolvedAt inc' = Some (now w + 1000)
                  \<and> report inc' = Some rep
                  \<and> incidentId rep = i"
    using reporter_incident(1) [OF l] by blast
  show "published w (snd (runReporterAgent i w))
          [agent_start, report_generated, incident_update, incident_resolved, agent_complete]"
    using l by (rule reporter_published(1))
next
  let ?i = "generateId (now w) (randomSuffix env)"
  obtain pre inc rep where pre: "DAList.lookup (incidents pre) ?i \<noteq> None"
    and run: "runPipeline a s env w =
          (snd (runReporterAgent ?i pre)) \<lparr> consecutiveUnhealthy := 0, pipelineRunning := False \<rparr>"
    and inc: "DAList.lookup (incidents (runPipeline a s env w)) ?i = Some inc"
      "Incident.status inc = resolved" "report inc = Some rep" "incidentId rep = ?i"
    using pipeline_result [where a = a and s = s and env = env and w = w] by blast
  obtain incp where incp: "DAList.lookup (incidents pre) ?i = Some incp"
    using pre by blast
  have "type (last (eventHistory (bus (runPipeline a s env w)))) = agent_complete"
    and "get_prop (BusEvent.data (last (eventHistory (bus (runPipeline a s env w))))) ''agent''
              = VStr ''Incident Reporter''"
    unfolding run using reporter_published(2,3) [OF incp] by simp_all
  then show "\<exists>pre inc rep.
          DAList.lookup (incidents pre) ?i \<noteq> None
          \<and> runPipeline a s env w =
              (snd (runReporterAgent ?i pre)) \<lparr> consecutiveUnhealthy := 0, pipelineRunning := False \<rparr>
          \<and> DAList.lookup (incidents (runPipeline a s env w)) ?i = Some inc
          \<and> Incident.status inc = resolved
          \<and> report inc = Some rep
          \<and> incidentId rep = ?i
          \<and> type (last (eventHistory (bus (runPipeline a s env w)))) = agent_complete
          \<and> get_prop (BusEvent.data (last (eventHistory (bus (runPipeline a s env w))))) ''agent''
              = VStr ''Incident Reporter''"
    using pre run inc by blast
qed

theorem reporter_always_resolves_witness:
  "quiet (bus world0)
   \<and> DAList.lookup (incidents world0) ''INC-0-ABCDEF'' = Some incident0
   \<and> AgentResult.success (fst (runReporterAgent ''INC-0-ABCDEF'' world0))
   \<and> published world0 (snd (runReporterAgent ''INC-0-ABCDEF'' world0))
        [agent_start, report_generated, incident_update, incident_resolved, agent_complete]"
  using reporter_always_resolves [where w = world0 and i = "''INC-0-ABCDEF''" and env = env0]
  by (simp add: quiet_def world0_def initial_world_def new_bus_def)

text \<open>
  C3. From a state with a quiet bus, no pipeline running and both counters at zero, let the
  first tick classify its snapshot as anomalous. If the second tick classifies its snapshot
  as healthy, the store after the two ticks is the store before them, so no incident was
  opened, and the unhealthy counter is back at 0. If the second tick classifies its
  snapshot as anomalous too and no incident is active (the store is empty or every incident
  in it is \<open>resolved\<close> or \<open>failed\<close>), the first tick leaves the store as it
  was and the second opens exactly one incident: after the two ticks the store differs from
  the store before at one id only, the id generated at the second tick, which holds an
  incident created then for the anomaly of that tick, and the number of incidents has grown
  by one (it is unchanged if that id was in the store already).
\<close>

theorem hysteresis:
  assumes "quiet (bus w)" and "\<not> pipelineRunning w"
    and "consecutiveUnhealthy w = 0" and "consecutiveHealthy w = 0"
    and "poll_anomaly p1 = Some a1"
  shows "(poll_anomaly p2 = None \<longrightarrow>
            incidents (run_polls [p1, p2] w) = incidents w
            \<and> consecutiveUnhealthy (run_polls [p1, p2] w) = 0)
    \<and> (\<forall>a2. poll_anomaly p2 = Some a2 \<longrightarrow> active_incidents w = [] \<longrightarrow>
          (let t = now w + probesElapsed (probes p1) + probesElapsed (probes p2);
               i = generateId t (randomSuffix (pipelineEnv p2));
               w' = run_polls [p1, p2] w
           in incidents (monitoringLoop p1 w) = incidents w
              \<and> (\<forall>j. j \<noteq> i \<longrightarrow> DAList.lookup (incidents w') j = DAList.lookup (incidents w) j)
              \<and> (\<exists>inc. DAList.lookup (incidents w') i = Some inc
                    \<and> creation inc = (i, t, AnomalyReport.failureType a2,
                                       AnomalyReport.severity a2, AnomalyReport.affectedServices a2))
              \<and> getIncidentCount w' =
                  (if DAList.lookup (incidents w) i = None then getIncidentCount w + 1
                   else getIncidentCount w)
              \<and> consecutiveUnhealthy w' = 0))"
proof -
  let ?w1 = "monitoringLoop p1 w"
  have cu: "consecutiveUnhealthy w = 0 \<or> getActiveIncident w \<noteq> None"
    using assms(3) by simp
  note first = monitoringLoop_no_pipeline [OF assms(2) assms(5) cu]
  have inc1: "incidents ?w1 = incidents w" by (rule first(1))
  have cu1: "consecutiveUnhealthy ?w1 = 1" using first(2) assms(3) by simp
  have pr1: "\<not> pipelineRunning ?w1" by (rule first(4))
  have now1: "now ?w1 = now w + probesElapsed (probes p1)" by (rule first(6))
  have healthy: "incidents (run_polls [p1, p2] w) = incidents w
            \<and> consecutiveUnhealthy (run_polls [p1, p2] w) = 0" if h: "poll_anomaly p2 = None"
    using monitoringLoop_healthy(1,2) [OF pr1 h] inc1 by simp
  have anomalous: "incidents (monitoringLoop p1 w) = incidents w
      \<and> (\<forall>j. j \<noteq> generateId (now w + probesElapsed (probes p1) + probesElapsed (probes p2))
                     (randomSuffix (pipelineEnv p2)) \<longrightarrow>
            DAList.lookup (incidents (run_polls [p1, p2] w)) j = DAList.lookup (incidents w) j)
      \<and> (\<exists>inc. DAList.lookup (incidents (run_polls [p1, p2] w))
                   (generateId (now w + probesElapsed (probes p1) + probesElapsed (probes p2))
                      (randomSuffix (pipelineEnv p2))) = Some inc
            \<and> creation inc =
                (generateId (now w + probesElapsed (probes p1) + probesElapsed (probes p2))
                   (randomSuffix (pipelineEnv p2)),
                 now w + probesElapsed (probes p1) + probesElapsed (probes p2),
                 AnomalyReport.failureType a2, AnomalyReport.severity a2,
                 AnomalyReport.affectedServices a2))
      \<and> getIncidentCount (run_polls [p1, p2] w) =
          (if DAList.lookup (incidents w)
                (generateId (now w + probesElapsed (probes p1) + probesElapsed (probes p2))
                   (randomSuffix (pipelineEnv p2))) = None
           then getIncidentCount w + 1 else getIncidentCount w)
      \<and> consecutiveUnhealthy (run_polls [p1, p2] w) = 0"
    if a2: "poll_anomaly p2 = Some a2" and na: "active_incidents w = []" for a2
  proof -
    have ga: "getActiveIncident w = None"
      using na by (simp add: getActiveIncident_None_iff)
    let ?t = "now w + probesElapsed (probes p1) + probesElapsed (probes p2)"
    let ?i = "generateId ?t (randomSuffix (pipelineEnv p2))"
    have ga1: "getActiveIncident ?w1 = None"
      using ga getActiveIncident_cong [OF inc1] by simp
    have cu1': "1 \<le> consecutiveUnhealthy ?w1" using cu1 by simp
    obtain s w6 where ml: "monitoringLoop p2 ?w1 = runPipeline a2 s (pipelineEnv p2) w6"
      and inc6: "incidents w6 = incidents ?w1"
      and now6: "now w6 = now ?w1 + probesElapsed (probes p2)"
      using monitoringLoop_pipeline [OF pr1 a2 cu1' ga1] by blast
    have t6: "now w6 = ?t" using now6 now1 by simp
    have i6: "incidents w6 = incidents w" using inc6 inc1 by simp
    obtain pre inc rep where res:
      "runPipeline a2 s (pipelineEnv p2) w6 =
          (snd (runReporterAgent ?i pre)) \<lparr> consecutiveUnhealthy := 0, pipelineRunning := False \<rparr>"
      "\<forall>j. j \<noteq> ?i \<longrightarrow> DAList.lookup (incidents (runPipeline a2 s (pipelineEnv p2) w6)) j
                        = DAList.lookup (incidents w) j"
      "DAList.lookup (incidents (runPipeline a2 s (pipelineEnv p2) w6)) ?i = Some inc"
      "creation inc = (?i, ?t, AnomalyReport.failureType a2, AnomalyReport.severity a2,
                       AnomalyReport.affectedServices a2)"
      "map fst (DAList.impl_of (incidents (runPipeline a2 s (pipelineEnv p2) w6))) =
          (if DAList.lookup (incidents w) ?i = None
           then map fst (DAList.impl_of (incidents w)) @ [?i]
           else map fst (DAList.impl_of (incidents w)))"
      using pipeline_result [where a = a2 and s = s and env = "pipelineEnv p2" and w = w6]
      unfolding t6 i6 by blast
    have rp: "run_polls [p1, p2] w = runPipeline a2 s (pipelineEnv p2) w6"
      using ml by simp
    have "length (map fst (DAList.impl_of (incidents (run_polls [p1, p2] w)))) =
          (if DAList.lookup (incidents w) ?i = None
           then length (map fst (DAList.impl_of (incidents w))) + 1
           else length (map fst (DAList.impl_of (incidents w))))"
      unfolding rp res(5) by simp
    then have count: "getIncidentCount (run_polls [p1, p2] w) =
          (if DAList.lookup (incidents w) ?i = None then getIncidentCount w + 1
           else getIncidentCount w)"
      by (simp add: getIncidentCount_def)
    have "consecutiveUnhealthy (run_polls [p1, p2] w) = 0"
      unfolding rp res(1) by simp
    then show ?thesis
      using inc1 res(2,3,4) count unfolding rp by blast
  qed
  show ?thesis
    using healthy anomalous unfolding Let_def by blast
qed

lemma poll_anomaly_down: "poll_anomaly poll_down = Some anomaly_down"
  by (simp add: poll_anomaly_def poll_down_def probes_down_def getHealthSnapshot_def Let_def
      detectAnomalies_def anomaly_down_def vopt_def)

lemma poll_anomaly_up: "poll_anomaly poll_up = None"
  by (simp add: poll_anomaly_def poll_up_def probes_up_def getHealthSnapshot_def Let_def
      detectAnomalies_def)

lemma generateId_109: "generateId 109 ''ABCDEF'' = ''INC-109-ABCDEF''"
  by code_simp

lemma world1_facts:
  "quiet (bus world1)" "\<not> pipelineRunning world1"
  "consecutiveUnhealthy world1 = 0" "consecutiveHealthy world1 = 0"
  "now world1 = 9" "active_incidents world1 = []" "getIncidentCount world1 = 1"
  "DAList.lookup (incidents world1) ''INC-109-ABCDEF'' = None"
  "DAList.lookup (incidents world1) ''INC-0-ABCDEF'' = Some incident0"
  by (simp_all add: world1_def quiet_program_bus program_world_def initial_world_def
      active_incidents_def active_def incident0_def getIncidentCount_def
      DAList.lookup.rep_eq DAList.update.rep_eq DAList.empty.rep_eq)

theorem hysteresis_witness:
  "quiet (bus world1)
   \<and> \<not> pipelineRunning world1
   \<and> consecutiveUnhealthy world1 = 0
   \<and> consecutiveHealthy world1 = 0
   \<and> poll_anomaly poll_down = Some anomaly_down
   \<and> poll_anomaly poll_up = None
   \<and> active_incidents world1 = []
   \<and> getIncidentCount world1 = 1
   \<and> incidents (run_polls [poll_down, poll_up] world1) = incidents world1
   \<and> getIncidentCount (run_polls [poll_down, poll_down] world1) = 2
   \<and> DAList.lookup (incidents (run_polls [poll_down, poll_down] world1)) ''INC-0-ABCDEF''
        = Some incident0"
proof -
  have e: "probesElapsed (probes poll_down) = 50" "randomSuffix (pipelineEnv poll_down) = ''ABCDEF''"
    by (simp_all add: poll_down_def probes_down_def env0_def)
  show ?thesis
    using hysteresis [OF world1_facts(1-4) poll_anomaly_down, of poll_up]
      hysteresis [OF world1_facts(1-4) poll_anomaly_down, of poll_down]
      world1_facts poll_anomaly_down poll_anomaly_up e generateId_109
    by (simp add: Let_def)
qed

end
